theory Spec2Isabelle
  imports Main "HOL-Library.Word"
begin

text \<open>
  The editor extension sends the source-control diff of the selected files, wrapped in a
  review prompt, to a chat assistant. This theory embeds its three parts: the table of
  prompt templates with the language resolution (\<open>promptTemplates.ts\<close>), and the diff
  resolver for git and svn, the prompt assembly and the command handler (\<open>reviewDiff.ts\<close>
  in its version with both backends; the git-only version of the same file differs in how
  a file's diff is found, not in the size limit or the prompt assembly). Paths are POSIX
  paths.
\<close>

section \<open>JavaScript strings and the library calls the sources make\<close>

text \<open>
  A JavaScript string is a sequence of 16-bit code units; \<open>length\<close> and \<open>slice\<close> count
  code units. \<open>js\<close> embeds an ASCII literal of the source.
\<close>

type_synonym jsstring = "16 word list"

definition js :: "string \<Rightarrow> jsstring" where
  "js s = map of_char s"

text \<open>The line feed, written \<open>'\n'\<close> in the sources, and the null code unit \<open>'\0'\<close>.\<close>

definition LF :: "16 word" where
  "LF = 0x0A"

definition NUL :: "16 word" where
  "NUL = 0x00"

text \<open>\<open>s.split(sep)\<close> for a separator of one code unit: never the empty array.\<close>

fun js_split :: "16 word \<Rightarrow> jsstring \<Rightarrow> jsstring list" where
  "js_split sep [] = [[]]"
| "js_split sep (c # cs) =
     (if c = sep then [] # js_split sep cs
      else (c # hd (js_split sep cs)) # tl (js_split sep cs))"

text \<open>\<open>parts.join(sep)\<close>.\<close>

fun js_join :: "jsstring \<Rightarrow> jsstring list \<Rightarrow> jsstring" where
  "js_join sep [] = []"
| "js_join sep [x] = x"
| "js_join sep (x # y # ys) = x @ sep @ js_join sep (y # ys)"

text \<open>\<open>s.startsWith(p)\<close>, \<open>s.indexOf(p)\<close> (\<open>None\<close> for -1) and \<open>s.includes(p)\<close>.\<close>

definition js_startsWith :: "jsstring \<Rightarrow> jsstring \<Rightarrow> bool" where
  "js_startsWith s p = (take (length p) s = p)"

fun js_indexOf :: "jsstring \<Rightarrow> jsstring \<Rightarrow> nat option" where
  "js_indexOf [] p = (if p = [] then Some 0 else None)"
| "js_indexOf (c # cs) p =
     (if js_startsWith (c # cs) p then Some 0
      else map_option Suc (js_indexOf cs p))"

definition js_includes :: "jsstring \<Rightarrow> jsstring \<Rightarrow> bool" where
  "js_includes s p = (js_indexOf s p \<noteq> None)"

text \<open>
  \<open>s.trim()\<close> strips the code units of ECMAScript's WhiteSpace and LineTerminator
  productions from both ends.
\<close>

definition isWhiteSpace :: "16 word \<Rightarrow> bool" where
  "isWhiteSpace c =
     (c = 0x09 \<or> c = 0x0A \<or> c = 0x0B \<or> c = 0x0C \<or> c = 0x0D \<or> c = 0x20 \<or> c = 0xA0
      \<or> c = 0x1680 \<or> (0x2000 \<le> c \<and> c \<le> 0x200A) \<or> c = 0x2028 \<or> c = 0x2029
      \<or> c = 0x202F \<or> c = 0x205F \<or> c = 0x3000 \<or> c = 0xFEFF)"

definition js_trim :: "jsstring \<Rightarrow> jsstring" where
  "js_trim s = rev (dropWhile isWhiteSpace (rev (dropWhile isWhiteSpace s)))"

text \<open>
  \<open>s.toLowerCase()\<close> on the letters A to Z. The sources apply it to the editor's UI
  language tag only (\<open>en-us\<close>, \<open>zh-cn\<close>, ...); other code units are left as they are.
\<close>

definition lowerUnit :: "16 word \<Rightarrow> 16 word" where
  "lowerUnit c = (if 0x41 \<le> c \<and> c \<le> 0x5A then c + 0x20 else c)"

definition js_toLowerCase :: "jsstring \<Rightarrow> jsstring" where
  "js_toLowerCase s = map lowerUnit s"

text \<open>
  A template literal \<open>${n}\<close> over an integer: its decimal digits, with a minus sign
  before a negative one.
\<close>

fun digitsOf :: "nat \<Rightarrow> jsstring" where
  "digitsOf n =
     (if n < 10 then [of_nat (48 + n)]
      else digitsOf (n div 10) @ [of_nat (48 + n mod 10)])"

declare digitsOf.simps [simp del]

definition numberToString :: "int \<Rightarrow> jsstring" where
  "numberToString n = (if n < 0 then 0x2D # digitsOf (nat (- n)) else digitsOf (nat n))"

text \<open>
  \<open>s.replace(pattern, replacement)\<close> with a string pattern replaces the first occurrence
  only, and reads the replacement as a template: \<open>$$\<close> stands for one dollar sign,
  \<open>$&\<close> for the matched text, \<open>$`\<close> for the text before the match and \<open>$'\<close> for the
  text after it. A string pattern has no capture groups, so every other \<open>$\<close> stands for
  itself. \<open>getSubstitution\<close> expands the template.
\<close>

fun getSubstitution :: "jsstring \<Rightarrow> jsstring \<Rightarrow> jsstring \<Rightarrow> jsstring \<Rightarrow> jsstring" where
  "getSubstitution matched before after [] = []"
| "getSubstitution matched before after [c] = [c]"
| "getSubstitution matched before after (c # d # r) =
     (if c = 0x24 \<and> d = 0x24 then 0x24 # getSubstitution matched before after r
      else if c = 0x24 \<and> d = 0x26 then matched @ getSubstitution matched before after r
      else if c = 0x24 \<and> d = 0x60 then before @ getSubstitution matched before after r
      else if c = 0x24 \<and> d = 0x27 then after @ getSubstitution matched before after r
      else c # getSubstitution matched before after (d # r))"

definition js_replace :: "jsstring \<Rightarrow> jsstring \<Rightarrow> jsstring \<Rightarrow> jsstring" where
  "js_replace s pattern replacement =
     (case js_indexOf s pattern of
        None \<Rightarrow> s
      | Some i \<Rightarrow>
          take i s
          @ getSubstitution pattern (take i s) (drop (i + length pattern) s) replacement
          @ drop (i + length pattern) s)"

section \<open>Synthesised diffs (\<open>isBinary\<close>, \<open>buildPseudoDiff\<close>)\<close>

definition isBinary :: "jsstring \<Rightarrow> bool" where
  "isBinary content = js_includes content [NUL]"

text \<open>The parameter \<open>prefix: '+' | '-'\<close>.\<close>

datatype prefix = Plus | Minus

definition prefixUnit :: "prefix \<Rightarrow> 16 word" where
  "prefixUnit p = (case p of Plus \<Rightarrow> 0x2B | Minus \<Rightarrow> 0x2D)"

definition buildPseudoDiff ::
  "jsstring \<Rightarrow> jsstring \<Rightarrow> prefix \<Rightarrow> jsstring \<Rightarrow> jsstring \<Rightarrow> jsstring" where
  "buildPseudoDiff relativePath content prefix fromHeader toHeader =
     (let lines0 = js_split LF content;
          lines1 = (if lines0 \<noteq> [] \<and> last lines0 = [] then butlast lines0 else lines0);
          hunkHeader =
            (if prefix = Plus
             then js ''@@ -0,0 +1,'' @ numberToString (int (length lines1)) @ js '' @@''
             else js ''@@ -1,'' @ numberToString (int (length lines1)) @ js '' +0,0 @@'');
          diffLines = map (\<lambda>line. prefixUnit prefix # line) lines1
      in js_join [LF]
           ([js ''--- '' @ fromHeader, js ''+++ '' @ toHeader, hunkHeader] @ diffLines))"

section \<open>The host: editor, version control and file system\<close>

text \<open>
  What a run reads from its environment is a value of the record \<open>Host\<close>; a call that can
  throw or reject returns a sum, \<open>Inl\<close> the error.
\<close>

datatype js_error = HostFailure | TypeError

text \<open>
  Modelled from the spec: the enum \<open>Status\<close> of \<open>./api/git\<close> is not among the sources.
  The spec maps the backend's statuses onto modified, new/untracked, deleted and unknown;
  the resolver tests the four members named here, and \<open>OTHER_STATUS\<close> stands for every
  other member.
\<close>

datatype Status = UNTRACKED | INTENT_TO_ADD | DELETED | INDEX_DELETED | OTHER_STATUS nat

record Uri =
  fsPath :: jsstring

record Change =
  uri :: Uri
  status :: Status

text \<open>
  A \<open>Repository\<close> of the git extension: \<open>repo.state.workingTreeChanges\<close>,
  \<open>repo.state.indexChanges\<close>, \<open>repo.show('HEAD', path)\<close>, \<open>repo.diffWithHEAD(path)\<close>
  and \<open>repo.diffIndexWithHEAD(path)\<close>.
\<close>

record Repository =
  workingTreeChanges :: "Change list"
  indexChanges :: "Change list"
  showHEAD :: "jsstring \<Rightarrow> js_error + jsstring"
  diffWithHEAD :: "jsstring \<Rightarrow> js_error + jsstring"
  diffIndexWithHEAD :: "jsstring \<Rightarrow> js_error + jsstring"

text \<open>
  \<^item> \<open>gitAPI\<close>: the result of \<open>getGitAPI()\<close>, \<open>None\<close> when the git extension is missing or
    inactive; applied to a resource it is \<open>gitAPI.getRepository(resourceUri)\<close>.
  \<^item> \<open>asRelativePath\<close>: \<open>vscode.workspace.asRelativePath(resourceUri)\<close>.
  \<^item> \<open>readFile\<close>: \<open>vscode.workspace.fs.readFile(resourceUri)\<close> decoded as UTF-8.
  \<^item> \<open>existsJoin dir name\<close>: \<open>fs.existsSync(path.join(dir, name))\<close>.
  \<^item> \<open>exec command cwd\<close>: what \<open>cp.exec\<close> hands its callback, whether \<open>err\<close> is set and
    \<open>stdout\<close>.
  \<^item> \<open>reviewLanguage\<close>, \<open>reviewPrompt\<close>: the configuration reads, with their defaults
    \<open>'auto'\<close> and \<open>''\<close> applied; \<open>envLanguage\<close>: \<open>vscode.env.language\<close>.
  \<^item> \<open>showWarningMessage message items\<close>: the item the user picks in the warning dialog
    that offers \<open>items\<close>, \<open>None\<close> when the dialog is dismissed.
\<close>

record Host =
  gitAPI :: "(Uri \<Rightarrow> Repository option) option"
  asRelativePath :: "Uri \<Rightarrow> jsstring"
  readFile :: "Uri \<Rightarrow> js_error + jsstring"
  existsJoin :: "jsstring \<Rightarrow> jsstring \<Rightarrow> bool"
  exec :: "jsstring \<Rightarrow> jsstring \<Rightarrow> bool \<times> jsstring"
  reviewLanguage :: jsstring
  envLanguage :: jsstring
  reviewPrompt :: "jsstring \<Rightarrow> jsstring"
  showWarningMessage :: "jsstring \<Rightarrow> jsstring list \<Rightarrow> jsstring option"

text \<open>JavaScript's truthiness of a \<open>string | undefined\<close>: the empty string is falsy.\<close>

definition truthy :: "jsstring option \<Rightarrow> bool" where
  "truthy v = (case v of None \<Rightarrow> False | Some s \<Rightarrow> s \<noteq> [])"

section \<open>The git backend (\<open>getDiffTextGit\<close>)\<close>

definition getDiffTextGit :: "Host \<Rightarrow> Repository \<Rightarrow> Uri \<Rightarrow> js_error + jsstring option" where
  "getDiffTextGit h repo resourceUri =
     (let filePath = fsPath resourceUri;
          relativePath = asRelativePath h resourceUri;
          allChanges = workingTreeChanges repo @ indexChanges repo;
          change = find (\<lambda>c. fsPath (uri c) = filePath) allChanges;
          st = map_option status change
      in if st = Some UNTRACKED \<or> st = Some INTENT_TO_ADD then
           (case readFile h resourceUri of
              Inl e \<Rightarrow> Inl e
            | Inr content \<Rightarrow>
                if isBinary content then Inr None
                else Inr (Some (buildPseudoDiff relativePath content Plus
                                  (js ''/dev/null'') (js ''b/'' @ relativePath))))
         else if st = Some DELETED \<or> st = Some INDEX_DELETED then
           (case showHEAD repo filePath of
              Inl e \<Rightarrow> Inl e
            | Inr content \<Rightarrow>
                if isBinary content then Inr None
                else Inr (Some (buildPseudoDiff relativePath content Minus
                                  (js ''a/'' @ relativePath) (js ''/dev/null''))))
         else
           (case diffWithHEAD repo filePath of
              Inl e \<Rightarrow> Inl e
            | Inr diffText \<Rightarrow>
                if diffText = [] \<or> js_trim diffText = [] then
                  (case diffIndexWithHEAD repo filePath of
                     Inl e \<Rightarrow> Inl e
                   | Inr diffText2 \<Rightarrow> Inr (if diffText2 = [] then None else Some diffText2))
                else Inr (Some diffText)))"

section \<open>The svn backend (\<open>findScmRoot\<close>, \<open>getDiffTextSvn\<close>)\<close>

text \<open>
  \<open>path.dirname\<close> as Node's POSIX implementation computes it: the empty path gives
  \<open>.\<close>; trailing slashes and the last component are dropped, scanning from the end down
  to index 1; with nothing left the result is \<open>/\<close> for a rooted path and \<open>.\<close> otherwise;
  a rooted path cut at index 1 gives \<open>//\<close>.
\<close>

definition js_dirname :: "jsstring \<Rightarrow> jsstring" where
  "js_dirname p =
     (case p of
        [] \<Rightarrow> js ''.''
      | c # t \<Rightarrow>
          (let hasRoot = (c = 0x2F);
               kept = dropWhile (\<lambda>d. d \<noteq> 0x2F) (dropWhile (\<lambda>d. d = 0x2F) (rev t))
           in if kept = [] then (if hasRoot then js ''/'' else js ''.'')
              else if hasRoot \<and> length kept = 1 then js ''//''
              else take (length kept) p))"

text \<open>
  \<open>/\<close> and \<open>.\<close> are their own parents; every other path that is not its own parent has a
  strictly shorter parent, unless that parent is one of these two. This is what ends the
  upward walk of \<open>findScmRoot\<close>.
\<close>

lemma js_dirname_root: "js_dirname (js ''/'') = js ''/''"
  by (simp add: js_dirname_def js_def)

lemma js_dirname_dot: "js_dirname (js ''.'') = js ''.''"
  by (simp add: js_dirname_def js_def)

lemma length_dropWhile_bound: "length (dropWhile P xs) \<le> length xs"
  by (induction xs) auto

lemma kept_shorter:
  fixes t :: jsstring
  assumes "dropWhile P (dropWhile Q (rev t)) \<noteq> []"
    and "\<And>x. \<not> Q x \<Longrightarrow> P x"
  shows "length (dropWhile P (dropWhile Q (rev t))) < length t"
proof (cases "rev t")
  case Nil
  with assms show ?thesis by simp
next
  case (Cons a as)
  then have las: "length as < length t"
    by (metis length_Cons length_rev lessI)
  show ?thesis
  proof (cases "Q a")
    case True
    have "length (dropWhile P (dropWhile Q (rev t))) \<le> length (dropWhile Q (rev t))"
      by (rule length_dropWhile_bound)
    also have "\<dots> \<le> length as"
      using Cons True length_dropWhile_bound [of Q as] by simp
    finally show ?thesis using las by simp
  next
    case False
    then have "P a" using assms(2) by simp
    then have "length (dropWhile P (dropWhile Q (rev t))) \<le> length as"
      using Cons False length_dropWhile_bound [of P as] by simp
    then show ?thesis using las by simp
  qed
qed

lemma js_dirname_shorter:
  assumes nf: "js_dirname (js_dirname d) \<noteq> js_dirname d"
  shows "length (js_dirname d) < length d"
proof (cases d)
  case Nil
  then have "js_dirname d = js ''.''" by (simp add: js_dirname_def)
  with nf js_dirname_dot show ?thesis by simp
next
  case (Cons c t)
  define kept where
    "kept = dropWhile (\<lambda>d. d \<noteq> 0x2F) (dropWhile (\<lambda>d. d = (0x2F :: 16 word)) (rev t))"
  have dn: "js_dirname d =
      (if kept = [] then (if c = 0x2F then js ''/'' else js ''.'')
       else if c = 0x2F \<and> length kept = 1 then js ''//''
       else take (length kept) d)"
    unfolding Cons js_dirname_def kept_def Let_def list.case by (rule refl)
  show ?thesis
  proof (cases "kept = []")
    case True
    with dn have "js_dirname d = js ''/'' \<or> js_dirname d = js ''.''"
      by simp
    with nf js_dirname_root js_dirname_dot show ?thesis by auto
  next
    case False
    have "length kept < length t"
      using False unfolding kept_def by (rule kept_shorter) auto
    with False Cons dn show ?thesis
      by (auto simp: js_def)
  qed
qed

datatype scm_type = Git | Svn

function findScmRootFrom :: "Host \<Rightarrow> jsstring \<Rightarrow> (jsstring \<times> scm_type) option" where
  "findScmRootFrom h currentDir =
     (if existsJoin h currentDir (js ''.git'') then Some (currentDir, Git)
      else if existsJoin h currentDir (js ''.svn'') then Some (currentDir, Svn)
      else (let parentDir = js_dirname currentDir
            in if parentDir = currentDir then None else findScmRootFrom h parentDir))"
  by pat_completeness auto
termination
proof (relation "measure (\<lambda>(h, d). if js_dirname d = d then 0 else Suc (length d))")
  show "wf (measure (\<lambda>(h, d). if js_dirname d = d then 0 else Suc (length d)))"
    by simp
next
  fix h :: Host and currentDir parentDir :: jsstring
  assume "parentDir = js_dirname currentDir" and "parentDir \<noteq> currentDir"
  then show "((h, parentDir), (h, currentDir))
        \<in> measure (\<lambda>(h, d). if js_dirname d = d then 0 else Suc (length d))"
    using js_dirname_shorter [of currentDir] by auto
qed

declare findScmRootFrom.simps [simp del]

text \<open>
  The directories the walk of \<open>findScmRoot\<close> can visit, in order: the directory of the
  file, then each parent up to the directory that is its own parent. \<open>hasMarker\<close> holds of
  a directory in which the walk stops.
\<close>

function ancestorsFrom :: "jsstring \<Rightarrow> jsstring list" where
  "ancestorsFrom currentDir =
     (let parentDir = js_dirname currentDir
      in if parentDir = currentDir then [currentDir]
         else currentDir # ancestorsFrom parentDir)"
  by pat_completeness auto
termination
proof (relation "measure (\<lambda>d. if js_dirname d = d then 0 else Suc (length d))")
  show "wf (measure (\<lambda>d. if js_dirname d = d then 0 else Suc (length d)))"
    by simp
next
  fix currentDir parentDir :: jsstring
  assume "parentDir = js_dirname currentDir" and "parentDir \<noteq> currentDir"
  then show "(parentDir, currentDir)
        \<in> measure (\<lambda>d. if js_dirname d = d then 0 else Suc (length d))"
    using js_dirname_shorter [of currentDir] by auto
qed

declare ancestorsFrom.simps [simp del]

definition ancestorDirs :: "jsstring \<Rightarrow> jsstring list" where
  "ancestorDirs filePath = ancestorsFrom (js_dirname filePath)"

definition hasMarker :: "Host \<Rightarrow> jsstring \<Rightarrow> bool" where
  "hasMarker h dir = (existsJoin h dir (js ''.git'') \<or> existsJoin h dir (js ''.svn''))"

definition findScmRoot :: "Host \<Rightarrow> jsstring \<Rightarrow> (jsstring \<times> scm_type) option" where
  "findScmRoot h filePath = findScmRootFrom h (js_dirname filePath)"

text \<open>The three \<open>svn\<close> commands, each run with \<open>cwd: scmRoot\<close>; \<open>0x22\<close> is the double quote.\<close>

definition getSvnStatus :: "Host \<Rightarrow> jsstring \<Rightarrow> jsstring \<Rightarrow> jsstring option" where
  "getSvnStatus h filePath scmRoot =
     (let stdout = snd (exec h (js ''svn status '' @ [0x22] @ filePath @ [0x22]) scmRoot);
          char = take 1 (js_trim stdout)
      in if char \<in> set [js ''A'', js ''D'', js ''M'', js ''?'', js ''!'']
         then Some char else None)"

definition getSvnBaseContent :: "Host \<Rightarrow> jsstring \<Rightarrow> jsstring \<Rightarrow> jsstring option" where
  "getSvnBaseContent h filePath scmRoot =
     (case exec h (js ''svn cat -r BASE '' @ [0x22] @ filePath @ [0x22]) scmRoot of
        (err, stdout) \<Rightarrow> if err then None else if stdout = [] then None else Some stdout)"

definition getSvnDiffOutput :: "Host \<Rightarrow> jsstring \<Rightarrow> jsstring \<Rightarrow> jsstring option" where
  "getSvnDiffOutput h filePath scmRoot =
     (case exec h (js ''svn diff '' @ [0x22] @ filePath @ [0x22]) scmRoot of
        (err, stdout) \<Rightarrow>
          if err then None else if js_trim stdout = [] then None else Some (js_trim stdout))"

definition getDiffTextSvn :: "Host \<Rightarrow> Uri \<Rightarrow> jsstring \<Rightarrow> js_error + jsstring option" where
  "getDiffTextSvn h resourceUri scmRoot =
     (let filePath = fsPath resourceUri;
          relativePath = asRelativePath h resourceUri;
          st = getSvnStatus h filePath scmRoot
      in if st = Some (js ''A'') \<or> st = Some (js ''?'') then
           (case readFile h resourceUri of
              Inl e \<Rightarrow> Inl e
            | Inr content \<Rightarrow>
                if isBinary content then Inr None
                else Inr (Some (buildPseudoDiff relativePath content Plus
                                  (js ''/dev/null'') (js ''b/'' @ relativePath))))
         else if st = Some (js ''D'') \<or> st = Some (js ''!'') then
           (let diffOutput = getSvnDiffOutput h filePath scmRoot
            in if truthy diffOutput then Inr diffOutput
               else (let content = getSvnBaseContent h filePath scmRoot
                     in case content of
                          None \<Rightarrow> Inr None
                        | Some c \<Rightarrow>
                            if c = [] \<or> isBinary c then Inr None
                            else Inr (Some (buildPseudoDiff relativePath c Minus
                                              (js ''a/'' @ relativePath) (js ''/dev/null'')))))
         else Inr (getSvnDiffOutput h filePath scmRoot))"

section \<open>The dispatcher (\<open>getFileDiffText\<close>)\<close>

definition getFileDiffText :: "Host \<Rightarrow> Uri \<Rightarrow> js_error + jsstring option" where
  "getFileDiffText h resourceUri =
     (case (case gitAPI h of None \<Rightarrow> None | Some api \<Rightarrow> api resourceUri) of
        Some gitRepo \<Rightarrow> getDiffTextGit h gitRepo resourceUri
      | None \<Rightarrow>
          (case findScmRoot h (fsPath resourceUri) of
             Some (root, Svn) \<Rightarrow> getDiffTextSvn h resourceUri root
           | _ \<Rightarrow> Inr None))"

section \<open>Prompt templates and language resolution\<close>

record PromptTemplate =
  header :: jsstring
  fileLabel :: jsstring
  skipNotice :: "int \<Rightarrow> jsstring"

text \<open>
  The entries of the table \<open>PROMPT_TEMPLATES\<close>, in the order of the source. Text outside
  ASCII is given by its UTF-16 code units.
\<close>

definition template_ja :: PromptTemplate where
  "template_ja =
     \<lparr>header =
        [0x4EE5, 0x4E0B, 0x306E, 0x5DEE, 0x5206, 0x3092, 0x30B3, 0x30FC, 0x30C9]
        @ [0x30EC, 0x30D3, 0x30E5, 0x30FC, 0x3057, 0x3066, 0x304F, 0x3060, 0x3055]
        @ [0x3044, 0x3002, 0x000A, 0x5404, 0x30D5, 0x30A1, 0x30A4, 0x30EB, 0x306B]
        @ [0x3064, 0x3044, 0x3066, 0x3001, 0x554F, 0x984C, 0x70B9, 0x30FB, 0x6539]
        @ [0x5584, 0x6848, 0x30FB, 0x826F, 0x3044, 0x70B9, 0x3092, 0x305D, 0x308C]
        @ [0x305E, 0x308C, 0x5177, 0x4F53, 0x7684, 0x306B, 0x6307, 0x6458, 0x3057]
        @ [0x3066, 0x304F, 0x3060, 0x3055, 0x3044, 0x3002],
      fileLabel = [0x30D5, 0x30A1, 0x30A4, 0x30EB],
      skipNotice = (\<lambda>n.
        js ''> '' @ [0x6CE8, 0x610F] @ js '': ''
        @ [0x5DEE, 0x5206, 0x30B5, 0x30A4, 0x30BA, 0x304C, 0x4E0A, 0x9650, 0x3092]
        @ [0x8D85, 0x3048, 0x305F, 0x305F, 0x3081, 0x3001]
        @ numberToString n
        @ [0x4EF6, 0x306E, 0x30D5, 0x30A1, 0x30A4, 0x30EB, 0x3092, 0x30B9, 0x30AD]
        @ [0x30C3, 0x30D7, 0x3057, 0x307E, 0x3057, 0x305F, 0x3002])\<rparr>"

definition template_en :: PromptTemplate where
  "template_en =
     \<lparr>header =
        js ''Please review the following diff.'' @ [0x000A]
        @ js ''For each file, point out problems, suggestions for improvement, ''
        @ js ''and good points specifically.'',
      fileLabel = js ''File'',
      skipNotice = (\<lambda>n.
        js ''> Note: ''
        @ numberToString n
        @ js '' file(s) were skipped because the diff size exceeded the limit.'')\<rparr>"

definition template_zh_cn :: PromptTemplate where
  "template_zh_cn =
     \<lparr>header =
        [0x8BF7, 0x5BF9, 0x4EE5, 0x4E0B, 0x5DEE, 0x5F02, 0x8FDB, 0x884C, 0x4EE3]
        @ [0x7801, 0x5BA1, 0x67E5, 0x3002, 0x000A, 0x5BF9, 0x4E8E, 0x6BCF, 0x4E2A]
        @ [0x6587, 0x4EF6, 0xFF0C, 0x8BF7, 0x5177, 0x4F53, 0x6307, 0x51FA, 0x95EE]
        @ [0x9898, 0x3001, 0x6539, 0x8FDB, 0x5EFA, 0x8BAE, 0x548C, 0x4F18, 0x70B9]
        @ [0x3002],
      fileLabel = [0x6587, 0x4EF6],
      skipNotice = (\<lambda>n.
        js ''> '' @ [0x6CE8, 0x610F, 0xFF1A, 0x7531, 0x4E8E, 0x5DEE, 0x5F02, 0x5927, 0x5C0F]
        @ [0x8D85, 0x51FA, 0x9650, 0x5236, 0xFF0C, 0x5DF2, 0x8DF3, 0x8FC7] @ js '' ''
        @ numberToString n
        @ js '' '' @ [0x4E2A, 0x6587, 0x4EF6, 0x3002])\<rparr>"

definition template_ko :: PromptTemplate where
  "template_ko =
     \<lparr>header =
        [0xB2E4, 0xC74C] @ js '' '' @ [0xCC28, 0xC774, 0xB97C] @ js '' '' @ [0xCF54, 0xB4DC]
        @ js '' '' @ [0xB9AC, 0xBDF0, 0xD574, 0xC8FC, 0xC138, 0xC694] @ js ''.''
        @ [0x000A, 0xAC01] @ js '' '' @ [0xD30C, 0xC77C, 0xC5D0] @ js '' ''
        @ [0xB300, 0xD574] @ js '' '' @ [0xBB38, 0xC81C, 0xC810] @ js '', ''
        @ [0xAC1C, 0xC120] @ js '' '' @ [0xC81C, 0xC548] @ js '', '' @ [0xC88B, 0xC740]
        @ js '' '' @ [0xC810, 0xC744] @ js '' '' @ [0xAD6C, 0xCCB4, 0xC801, 0xC73C, 0xB85C]
        @ js '' '' @ [0xC9C0, 0xC801, 0xD574, 0xC8FC, 0xC138, 0xC694] @ js ''.'',
      fileLabel = [0xD30C, 0xC77C],
      skipNotice = (\<lambda>n.
        js ''> '' @ [0xC8FC, 0xC758] @ js '': '' @ [0xCC28, 0xC774] @ js '' ''
        @ [0xD06C, 0xAE30, 0xAC00] @ js '' '' @ [0xC81C, 0xD55C, 0xC744] @ js '' ''
        @ [0xCD08, 0xACFC, 0xD558, 0xC5EC] @ js '' ''
        @ numberToString n
        @ [0xAC1C, 0xC758] @ js '' '' @ [0xD30C, 0xC77C, 0xC744] @ js '' ''
        @ [0xAC74, 0xB108, 0xB6F0, 0xC5C8, 0xC2B5, 0xB2C8, 0xB2E4] @ js ''.'')\<rparr>"

definition template_fr :: PromptTemplate where
  "template_fr =
     \<lparr>header =
        js ''Veuillez effectuer une revue de code du diff suivant.'' @ [0x000A]
        @ js ''Pour chaque fichier, indiquez pr'' @ [0x00E9] @ js ''cis'' @ [0x00E9]
        @ js ''ment les probl'' @ [0x00E8] @ js ''mes, les suggestions d'' @ [0x0027]
        @ js ''am'' @ [0x00E9] @ js ''lioration et les points positifs.'',
      fileLabel = js ''Fichier'',
      skipNotice = (\<lambda>n.
        js ''> Remarque : ''
        @ numberToString n
        @ js '' fichier(s) ont '' @ [0x00E9] @ js ''t'' @ [0x00E9] @ js '' ignor'' @ [0x00E9]
        @ js ''s car la taille du diff d'' @ [0x00E9] @ js ''passait la limite.'')\<rparr>"

definition template_de :: PromptTemplate where
  "template_de =
     \<lparr>header =
        js ''Bitte f'' @ [0x00FC]
        @ js ''hren Sie ein Code-Review des folgenden Diffs durch.'' @ [0x000A]
        @ js ''Geben Sie f'' @ [0x00FC]
        @ js ''r jede Datei konkret Probleme, Verbesserungsvorschl'' @ [0x00E4]
        @ js ''ge und positive Aspekte an.'',
      fileLabel = js ''Datei'',
      skipNotice = (\<lambda>n.
        js ''> Hinweis: ''
        @ numberToString n
        @ js '' Datei(en) wurden '' @ [0x00FC] @ js ''bersprungen, da die Diff-Gr''
        @ [0x00F6, 0x00DF] @ js ''e das Limit '' @ [0x00FC] @ js ''berschritten hat.'')\<rparr>"

definition template_es :: PromptTemplate where
  "template_es =
     \<lparr>header =
        js ''Por favor, realice una revisi'' @ [0x00F3] @ js ''n de c'' @ [0x00F3]
        @ js ''digo del siguiente diff.'' @ [0x000A]
        @ js ''Para cada archivo, indique concretamente los problemas, ''
        @ js ''sugerencias de mejora y puntos positivos.'',
      fileLabel = js ''Archivo'',
      skipNotice = (\<lambda>n.
        js ''> Nota: Se omitieron ''
        @ numberToString n
        @ js '' archivo(s) porque el tama'' @ [0x00F1] @ js ''o del diff super'' @ [0x00F3]
        @ js '' el l'' @ [0x00ED] @ js ''mite.'')\<rparr>"

definition PROMPT_TEMPLATES :: "(jsstring \<times> PromptTemplate) list" where
  "PROMPT_TEMPLATES =
     [(js ''ja'', template_ja), (js ''en'', template_en), (js ''zh-cn'', template_zh_cn),
      (js ''ko'', template_ko), (js ''fr'', template_fr), (js ''de'', template_de),
      (js ''es'', template_es)]"

definition DEFAULT_LANG :: jsstring where
  "DEFAULT_LANG = js ''en''"

text \<open>
  \<open>key in PROMPT_TEMPLATES\<close>. The table is an object literal, so the operator \<open>in\<close>
  finds its own keys and, through the prototype chain, the property names of
  \<open>Object.prototype\<close>.
\<close>

definition objectPrototypeKeys :: "jsstring list" where
  "objectPrototypeKeys =
     [js ''constructor'', js ''hasOwnProperty'', js ''isPrototypeOf'',
      js ''propertyIsEnumerable'', js ''toLocaleString'', js ''toString'', js ''valueOf'',
      js ''__proto__'', js ''__defineGetter__'', js ''__defineSetter__'',
      js ''__lookupGetter__'', js ''__lookupSetter__'']"

definition inPromptTemplates :: "jsstring \<Rightarrow> bool" where
  "inPromptTemplates key =
     (key \<in> set (map fst PROMPT_TEMPLATES) \<or> key \<in> set objectPrototypeKeys)"

definition resolveLanguage :: "Host \<Rightarrow> jsstring" where
  "resolveLanguage h =
     (let configured = reviewLanguage h
      in if configured \<noteq> js ''auto'' then
           (if inPromptTemplates configured then configured else DEFAULT_LANG)
         else
           (let vscodeLang = js_toLowerCase (envLanguage h)
            in if js_startsWith vscodeLang (js ''zh'') then js ''zh-cn''
               else (let twoChar = take 2 vscodeLang
                     in if inPromptTemplates twoChar then twoChar else DEFAULT_LANG)))"

section \<open>Prompt assembly (\<open>buildPrompt\<close>)\<close>

record Diff =
  fileName :: jsstring
  diffText :: jsstring

text \<open>
  \<open>PROMPT_TEMPLATES[lang]\<close> is \<open>map_of PROMPT_TEMPLATES lang\<close>. For a language that is not
  a key of the table itself the lookup yields a value inherited from \<open>Object.prototype\<close>
  (\<open>None\<close> here): its \<open>header\<close> and \<open>fileLabel\<close> are \<open>undefined\<close>, which a template
  literal prints as that word, and calling its \<open>skipNotice\<close> throws a \<open>TypeError\<close>.
\<close>

definition buildPrompt :: "Host \<Rightarrow> Diff list \<Rightarrow> int \<Rightarrow> js_error + jsstring" where
  "buildPrompt h diffs skippedCount =
     (let lang = resolveLanguage h;
          template = map_of PROMPT_TEMPLATES lang;
          templateHeader = (case template of Some t \<Rightarrow> header t | None \<Rightarrow> js ''undefined'');
          templateFileLabel =
            (case template of Some t \<Rightarrow> fileLabel t | None \<Rightarrow> js ''undefined'');
          diffBlocks =
            map (\<lambda>d. js_join [LF]
                        [js ''### '' @ templateFileLabel @ js '': '' @ fileName d,
                         js ''```diff'', diffText d, js ''```''])
              diffs;
          body = js_join [LF, LF] diffBlocks
      in case (if skippedCount > 0
               then (case template of
                       Some t \<Rightarrow> Inr ([LF, LF] @ skipNotice t skippedCount)
                     | None \<Rightarrow> Inl TypeError)
               else Inr []) of
           Inl e \<Rightarrow> Inl e
         | Inr footer \<Rightarrow>
             (let customPrompt = reviewPrompt h lang
              in if js_trim customPrompt \<noteq> [] then
                   Inr ((if js_includes customPrompt (js ''{{diff}}'')
                         then js_replace customPrompt (js ''{{diff}}'') body
                         else customPrompt @ [LF, LF] @ body)
                        @ footer)
                 else Inr (templateHeader @ [LF, LF] @ body @ footer)))"

section \<open>The command handler (\<open>reviewDiff\<close>)\<close>

definition DIFF_SIZE_LIMIT :: nat where
  "DIFF_SIZE_LIMIT = 50000"

record ResourceState =
  resourceUri :: Uri

text \<open>
  The variables of one run: \<open>diffs\<close>, \<open>totalSize\<close>, \<open>skippedCount\<close>, and the
  information messages shown so far (\<open>notices\<close>).
\<close>

record RunState =
  diffs :: "Diff list"
  totalSize :: nat
  skippedCount :: int
  notices :: "jsstring list"

text \<open>
  How the \<open>for\<close> loop is left: by the \<open>return\<close> of the cancelled dialog, or to the code
  after the loop (by \<open>break\<close> or after the last target).
\<close>

datatype loop_exit = Return RunState | AfterLoop RunState

text \<open>The loop over \<open>targets\<close>; \<open>n\<close> is \<open>targets.length\<close>.\<close>

fun reviewLoop :: "Host \<Rightarrow> nat \<Rightarrow> ResourceState list \<Rightarrow> RunState \<Rightarrow> loop_exit" where
  "reviewLoop h n [] s = AfterLoop s"
| "reviewLoop h n (target # rest) s =
     (let name = asRelativePath h (resourceUri target)
      in case getFileDiffText h (resourceUri target) of
           Inl e \<Rightarrow>
             reviewLoop h n rest
               (s\<lparr>notices :=
                    notices s @ [js ''Could not retrieve diff (file may be binary): '' @ name],
                  skippedCount := skippedCount s + 1\<rparr>)
         | Inr found \<Rightarrow>
             if \<not> truthy found then
               reviewLoop h n rest (s\<lparr>notices := notices s @ [js ''No diff found: '' @ name]\<rparr>)
             else
               (let d = (case found of Some t \<Rightarrow> t | None \<Rightarrow> [])
                in if totalSize s + length d > DIFF_SIZE_LIMIT then
                     (if length (diffs s) = 0 then
                        (let answer =
                           showWarningMessage h
                             (js ''Diff size exceeds the limit (50KB). Send only the first 50KB?''
                              @ [LF] @ js ''File: '' @ name)
                             [js ''Send first 50KB'', js ''Cancel'']
                         in if answer \<noteq> Some (js ''Send first 50KB'') then Return s
                            else AfterLoop
                                   (s\<lparr>diffs :=
                                        diffs s
                                        @ [\<lparr>fileName = name, diffText = take DIFF_SIZE_LIMIT d\<rparr>],
                                      skippedCount := skippedCount s + (int n - 1)\<rparr>))
                      else AfterLoop
                             (s\<lparr>skippedCount :=
                                  skippedCount s + (int n - int (length (diffs s)))\<rparr>))
                   else reviewLoop h n rest
                          (s\<lparr>totalSize := totalSize s + length d,
                             diffs := diffs s @ [\<lparr>fileName = name, diffText = d\<rparr>]\<rparr>)))"

declare reviewLoop.simps [simp del]

text \<open>What a run does to the chat panel.\<close>

datatype delivery = NothingSent | ChatOpened jsstring | Thrown js_error

definition initialState :: RunState where
  "initialState = \<lparr>diffs = [], totalSize = 0, skippedCount = 0, notices = []\<rparr>"

definition targetsOf :: "ResourceState \<Rightarrow> ResourceState list option \<Rightarrow> ResourceState list" where
  "targetsOf resourceState resourceStates =
     (case resourceStates of
        Some rs \<Rightarrow> if length rs > 0 then rs else [resourceState]
      | None \<Rightarrow> [resourceState])"

definition reviewDiff ::
  "Host \<Rightarrow> ResourceState \<Rightarrow> ResourceState list option \<Rightarrow> jsstring list \<times> delivery" where
  "reviewDiff h resourceState resourceStates =
     (let targets = targetsOf resourceState resourceStates
      in case reviewLoop h (length targets) targets initialState of
           Return s \<Rightarrow> (notices s, NothingSent)
         | AfterLoop s \<Rightarrow>
             if length (diffs s) = 0 then (notices s, NothingSent)
             else (case buildPrompt h (diffs s) (skippedCount s) of
                     Inl e \<Rightarrow> (notices s, Thrown e)
                   | Inr prompt \<Rightarrow> (notices s, ChatOpened prompt)))"

text \<open>
  Words for the targets of a run: a target \<open>resolves\<close> when its diff is a non-empty text,
  it \<open>fails\<close> when resolution throws; \<open>noticeOf\<close> is the information message shown for a
  target that does not resolve; \<open>diffSizes\<close> adds up the lengths of accepted diff texts.
\<close>

definition resolves :: "Host \<Rightarrow> ResourceState \<Rightarrow> bool" where
  "resolves h t =
     (case getFileDiffText h (resourceUri t) of Inl e \<Rightarrow> False | Inr found \<Rightarrow> truthy found)"

definition fails :: "Host \<Rightarrow> ResourceState \<Rightarrow> bool" where
  "fails h t = (case getFileDiffText h (resourceUri t) of Inl e \<Rightarrow> True | Inr found \<Rightarrow> False)"

definition noticeOf :: "Host \<Rightarrow> ResourceState \<Rightarrow> jsstring" where
  "noticeOf h t =
     (if fails h t then js ''Could not retrieve diff (file may be binary): ''
      else js ''No diff found: '')
     @ asRelativePath h (resourceUri t)"


section \<open>Example environments\<close>

text \<open>
  Concrete hosts and repositories on which the theorems below are run. \<open>quietHost\<close> has no
  git extension, no marker directory, failing commands and no configured prompt; its
  workspace folder is \<open>/w\<close>. The others change single fields of it.
\<close>

definition quietHost :: Host where
  "quietHost =
     \<lparr>gitAPI = None,
      asRelativePath = (\<lambda>u. drop 3 (fsPath u)),
      readFile = (\<lambda>u. Inl HostFailure),
      existsJoin = (\<lambda>dir name. False),
      exec = (\<lambda>command cwd. (True, [])),
      reviewLanguage = js ''auto'',
      envLanguage = js ''en-us'',
      reviewPrompt = (\<lambda>lang. []),
      showWarningMessage = (\<lambda>message items. None)\<rparr>"

definition quietRepo :: Repository where
  "quietRepo =
     \<lparr>workingTreeChanges = [],
      indexChanges = [],
      showHEAD = (\<lambda>path. Inl HostFailure),
      diffWithHEAD = (\<lambda>path. Inr []),
      diffIndexWithHEAD = (\<lambda>path. Inr [])\<rparr>"

definition svnHost :: Host where
  "svnHost =
     quietHost\<lparr>exec := (\<lambda>command cwd.
        if js_startsWith command (js ''svn status'') then (False, js ''D       old.txt'' @ [LF])
        else if js_startsWith command (js ''svn diff'') then (False, [])
        else (False, js ''a'' @ [LF] @ js ''b''))\<rparr>"

definition binaryDiff :: jsstring where
  "binaryDiff = js ''@@ -1 +1 @@'' @ [LF] @ js ''+a'' @ [NUL] @ js ''b''"

definition gitHost :: "Repository \<Rightarrow> Host" where
  "gitHost repo = quietHost\<lparr>gitAPI := Some (\<lambda>u. Some repo)\<rparr>"

definition newFileHost :: Host where
  "newFileHost =
     (gitHost (quietRepo\<lparr>workingTreeChanges :=
                 [\<lparr>uri = \<lparr>fsPath = js ''/w/new.txt''\<rparr>, status = UNTRACKED\<rparr>]\<rparr>))
       \<lparr>readFile := (\<lambda>u. Inr (js ''a'' @ [LF] @ js ''b'' @ [LF]))\<rparr>"

definition newFileDiff :: jsstring where
  "newFileDiff =
     js ''--- /dev/null'' @ [LF] @ js ''+++ b/new.txt'' @ [LF]
     @ js ''@@ -0,0 +1,2 @@'' @ [LF] @ js ''+a'' @ [LF] @ js ''+b''"

text \<open>
  The body of a prompt: the blocks of the diffs under the file label \<open>label\<close>, joined by
  blank lines, as \<open>buildPrompt\<close> computes \<open>body\<close>.
\<close>

definition promptBody :: "jsstring \<Rightarrow> Diff list \<Rightarrow> jsstring" where
  "promptBody label ds =
     js_join [LF, LF]
       (map (\<lambda>d. js_join [LF]
                    [js ''### '' @ label @ js '': '' @ fileName d,
                     js ''```diff'', diffText d, js ''```''])
          ds)"

definition shellDiff :: Diff where
  "shellDiff = \<lparr>fileName = js ''a.sh'', diffText = js ''+echo $$''\<rparr>"

definition customHost :: "jsstring \<Rightarrow> Host" where
  "customHost custom = quietHost\<lparr>reviewLanguage := js ''en'', reviewPrompt := (\<lambda>lang. custom)\<rparr>"

definition svnDiffText :: jsstring where
  "svnDiffText = js ''Index: f.txt'' @ [LF] @ js ''@@ -1 +1 @@'' @ [LF] @ js ''-a'' @ [LF] @ js ''+b''"

definition nestedHost :: Host where
  "nestedHost =
     quietHost
       \<lparr>existsJoin := (\<lambda>dir name.
          (dir = js ''/r'' \<and> name = js ''.svn'') \<or> (dir = js ''/r/s'' \<and> name = js ''.git'')),
        exec := (\<lambda>command cwd.
          if js_startsWith command (js ''svn status'') then (False, js ''M       f.txt'' @ [LF])
          else if js_startsWith command (js ''svn diff'') then (False, svnDiffText @ [LF])
          else (True, []))\<rparr>"

definition cleanSvnHost :: Host where
  "cleanSvnHost =
     quietHost
       \<lparr>existsJoin := (\<lambda>dir name. dir = js ''/r'' \<and> name = js ''.svn''),
        exec := (\<lambda>command cwd. (False, []))\<rparr>"

definition bigText :: "nat \<Rightarrow> jsstring" where
  "bigText n = replicate n 0x78"

definition bigRepo :: Repository where
  "bigRepo =
     quietRepo\<lparr>diffWithHEAD := (\<lambda>path.
        if path = js ''/w/b.ts'' \<or> path = js ''/w/c.ts'' then Inr (bigText 30000)
        else if path = js ''/w/huge.ts'' then Inr (bigText 60000)
        else if path = js ''/w/err.ts'' then Inl HostFailure
        else Inr [])\<rparr>"

definition bigHost :: "jsstring option \<Rightarrow> Host" where
  "bigHost answer = (gitHost bigRepo)\<lparr>showWarningMessage := (\<lambda>message items. answer)\<rparr>"

definition fileAt :: "string \<Rightarrow> ResourceState" where
  "fileAt p = \<lparr>resourceUri = \<lparr>fsPath = js p\<rparr>\<rparr>"

definition inheritedLanguageHost :: Host where
  "inheritedLanguageHost =
     (bigHost (Some (js ''Send first 50KB'')))\<lparr>reviewLanguage := js ''toString''\<rparr>"

text \<open>
  The lines of a synthesised diff for the content lines \<open>ls\<close>: the two header lines, the
  hunk header and the prefixed lines.
\<close>

definition pseudoDiffOf :: "prefix \<Rightarrow> jsstring \<Rightarrow> jsstring \<Rightarrow> jsstring list \<Rightarrow> jsstring list" where
  "pseudoDiffOf p fromH toH ls = 
       ([js ''--- '' @ fromH, js ''+++ '' @ toH,
         (if p = Plus
          then js ''@@ -0,0 +1,'' @ numberToString (int (length ls)) @ js '' @@''
          else js ''@@ -1,'' @ numberToString (int (length ls)) @ js '' +0,0 @@'')]
        @ map (\<lambda>l. prefixUnit p # l) ls)"

section \<open>Splitting and joining lines\<close>

lemma js_split_nonempty: "js_split sep s \<noteq> []"
  by (induction s) auto

lemma js_split_line:
  "sep \<notin> set l \<Longrightarrow> js_split sep (l @ sep # rest) = l # js_split sep rest"
  by (induction l) auto

lemma js_split_single: "sep \<notin> set l \<Longrightarrow> js_split sep l = [l]"
  by (induction l) auto

lemma js_split_terminated:
  "\<forall>l \<in> set ls. sep \<notin> set l \<Longrightarrow>
   js_split sep (concat (map (\<lambda>l. l @ [sep]) ls)) = ls @ [[]]"
  by (induction ls) (auto simp: js_split_line)

lemma js_split_join:
  "\<forall>l \<in> set ls. sep \<notin> set l \<Longrightarrow> ls \<noteq> [] \<Longrightarrow>
   js_split sep (js_join [sep] ls) = ls"
proof (induction ls)
  case Nil
  then show ?case by simp
next
  case (Cons x xs)
  show ?case
  proof (cases xs)
    case Nil
    with Cons.prems show ?thesis by (simp add: js_split_single)
  next
    case (Cons y ys)
    with Cons.IH Cons.prems show ?thesis by (simp add: js_split_line)
  qed
qed

lemma buildPseudoDiff_terminated:
  assumes "\<forall>l \<in> set ls. LF \<notin> set l"
  shows "buildPseudoDiff rel (concat (map (\<lambda>l. l @ [LF]) ls)) p fromH toH =
     js_join [LF] (pseudoDiffOf p fromH toH ls)"
  using assms by (simp add: buildPseudoDiff_def js_split_terminated Let_def pseudoDiffOf_def)

lemma buildPseudoDiff_unterminated:
  assumes "\<forall>l \<in> set ls. LF \<notin> set l" and "ls \<noteq> []" and "last ls \<noteq> []"
  shows "buildPseudoDiff rel (js_join [LF] ls) p fromH toH =
     js_join [LF] (pseudoDiffOf p fromH toH ls)"
  using assms by (simp add: buildPseudoDiff_def js_split_join Let_def pseudoDiffOf_def)

lemma isBinary_iff: "isBinary s \<longleftrightarrow> NUL \<in> set s"
  unfolding isBinary_def js_includes_def
  by (induction s) (auto simp: js_startsWith_def)

lemma digitsOf_range: "c \<in> set (digitsOf n) \<Longrightarrow> \<exists>k<10. c = of_nat (48 + k)"
proof (induction n arbitrary: c rule: digitsOf.induct)
  case (1 n)
  show ?case
  proof (cases "n < 10")
    case True
    with "1.prems" have "c = of_nat (48 + n)" by (simp add: digitsOf.simps [of n])
    with True show ?thesis by blast
  next
    case False
    with "1.prems" have "c \<in> set (digitsOf (n div 10)) \<or> c = of_nat (48 + n mod 10)"
      by (auto simp: digitsOf.simps [of n])
    then show ?thesis
    proof
      assume "c \<in> set (digitsOf (n div 10))"
      with "1.IH" False show ?thesis by simp
    next
      assume "c = of_nat (48 + n mod 10)"
      moreover have "n mod 10 < 10" by simp
      ultimately show ?thesis by blast
    qed
  qed
qed

lemma digit_unit_unat:
  assumes "k < 10"
  shows "unat (of_nat (48 + k) :: 16 word) = 48 + k"
  using assms unat_of_nat [where 'a = 16, of "48 + k"] by simp

lemma small_notin_digitsOf:
  assumes "unat c < 48"
  shows "c \<notin> set (digitsOf n)"
proof
  assume "c \<in> set (digitsOf n)"
  then obtain k where "k < 10" and "c = of_nat (48 + k)"
    using digitsOf_range by blast
  then have "unat c = 48 + k" using digit_unit_unat by simp
  with assms show False by simp
qed

lemma LF_notin_numberToString: "LF \<notin> set (numberToString n)"
  using small_notin_digitsOf [of LF] by (simp add: numberToString_def LF_def)

lemma NUL_notin_numberToString: "NUL \<notin> set (numberToString n)"
  using small_notin_digitsOf [of NUL] by (simp add: numberToString_def NUL_def)


text \<open>
  Every content is of one of the two shapes the theorems on synthesised diffs speak of:
  lines that are each ended by a line feed, or lines joined by line feeds with a
  non-empty last line.
\<close>

lemma js_join_Cons: "xs \<noteq> [] \<Longrightarrow> js_join sep (x # xs) = x @ sep @ js_join sep xs"
  by (cases xs) simp_all

lemma js_join_split: "js_join [sep] (js_split sep s) = s"
proof (induction s)
  case Nil
  then show ?case by simp
next
  case (Cons c cs)
  have ne: "js_split sep cs \<noteq> []" by (rule js_split_nonempty)
  show ?case
  proof (cases "c = sep")
    case True
    with Cons ne show ?thesis by (simp add: js_join_Cons)
  next
    case False
    obtain x xs where r: "js_split sep cs = x # xs" using ne by (cases "js_split sep cs") auto
    with Cons False show ?thesis by (cases xs) simp_all
  qed
qed

lemma js_split_parts: "l \<in> set (js_split sep s) \<Longrightarrow> sep \<notin> set l"
proof (induction s arbitrary: l)
  case Nil
  then show ?case by simp
next
  case (Cons c cs)
  have ne: "js_split sep cs \<noteq> []" by (rule js_split_nonempty)
  then obtain x xs where r: "js_split sep cs = x # xs" by (cases "js_split sep cs") auto
  with Cons show ?case by (auto split: if_splits)
qed

lemma js_join_terminated:
  "ls \<noteq> [] \<Longrightarrow> last ls = [] \<Longrightarrow>
   js_join [sep] ls = concat (map (\<lambda>l. l @ [sep]) (butlast ls))"
proof (induction ls)
  case Nil
  then show ?case by simp
next
  case (Cons x xs)
  then show ?case by (cases xs) (simp_all add: js_join_Cons)
qed

lemma content_lines_exhaustive:
  "\<exists>ls. (\<forall>l \<in> set ls. LF \<notin> set l)
        \<and> (content = concat (map (\<lambda>l. l @ [LF]) ls)
            \<or> (ls \<noteq> [] \<and> last ls \<noteq> [] \<and> content = js_join [LF] ls))"
proof (cases "last (js_split LF content) = []")
  case True
  have "content = concat (map (\<lambda>l. l @ [LF]) (butlast (js_split LF content)))"
    using js_join_terminated [OF js_split_nonempty True, of LF] js_join_split [of LF content]
    by simp
  moreover have "\<forall>l \<in> set (butlast (js_split LF content)). LF \<notin> set l"
    using js_split_parts by (blast dest: in_set_butlastD)
  ultimately show ?thesis by blast
next
  case False
  moreover have "content = js_join [LF] (js_split LF content)"
    by (simp add: js_join_split)
  moreover have "\<forall>l \<in> set (js_split LF content). LF \<notin> set l"
    using js_split_parts by blast
  ultimately show ?thesis using js_split_nonempty by blast
qed

text \<open>The decimal digits of some numbers.\<close>

lemma numberToString_examples:
  "numberToString 0 = js ''0''" "numberToString 7 = js ''7''"
  "numberToString 12 = js ''12''" "numberToString 50000 = js ''50000''"
  by (simp_all add: numberToString_def digitsOf.simps [of 0] digitsOf.simps [of 7]
      digitsOf.simps [of 12] digitsOf.simps [of "Suc 0"] digitsOf.simps [of 50000]
      digitsOf.simps [of 5000] digitsOf.simps [of 500] digitsOf.simps [of 50]
      digitsOf.simps [of 5] js_def)


section \<open>Synthesised diffs of new and deleted files\<close>

text \<open>
  C8. A new or untracked file that is not binary and whose content is \<open>k\<close> lines, each
  ended by a line feed (\<open>ls\<close> are the lines, \<open>k = length ls\<close>), gets from either backend
  the diff made of the header lines \<open>--- /dev/null\<close> and \<open>+++ b/<relativePath>\<close>, the hunk
  header \<open>@@ -0,0 +1,k @@\<close> and the \<open>k\<close> lines, each prefixed \<open>+\<close>, joined by line feeds.
  When the relative path holds no line feed, splitting the diff into lines gives back
  exactly these \<open>3 + k\<close> lines.
\<close>

theorem new_file_diff:
  assumes "\<forall>l \<in> set ls. LF \<notin> set l"
    and "content = concat (map (\<lambda>l. l @ [LF]) ls)"
    and "\<not> isBinary content"
    and "readFile h u = Inr content"
    and "expected =
           js_join [LF]
             ([js ''--- /dev/null'', js ''+++ b/'' @ asRelativePath h u,
               js ''@@ -0,0 +1,'' @ numberToString (int (length ls)) @ js '' @@'']
              @ map (\<lambda>l. 0x2B # l) ls)"
  shows "(\<forall>c. find (\<lambda>c. fsPath (uri c) = fsPath u) (workingTreeChanges repo @ indexChanges repo)
              = Some c \<and> (status c = UNTRACKED \<or> status c = INTENT_TO_ADD)
            \<longrightarrow> getDiffTextGit h repo u = Inr (Some expected))
       \<and> (getSvnStatus h (fsPath u) root = Some (js ''A'')
            \<or> getSvnStatus h (fsPath u) root = Some (js ''?'')
            \<longrightarrow> getDiffTextSvn h u root = Inr (Some expected))
       \<and> (LF \<notin> set (asRelativePath h u)
            \<longrightarrow> js_split LF expected =
                [js ''--- /dev/null'', js ''+++ b/'' @ asRelativePath h u,
                 js ''@@ -0,0 +1,'' @ numberToString (int (length ls)) @ js '' @@'']
                @ map (\<lambda>l. 0x2B # l) ls)"
proof -
  have pd: "buildPseudoDiff (asRelativePath h u) content Plus (js ''/dev/null'')
              (js ''b/'' @ asRelativePath h u) = expected"
    using assms(1) unfolding assms(2) assms(5)
    by (simp add: buildPseudoDiff_terminated pseudoDiffOf_def prefixUnit_def js_def)
  have git: "getDiffTextGit h repo u = Inr (Some expected)"
    if "find (\<lambda>c. fsPath (uri c) = fsPath u) (workingTreeChanges repo @ indexChanges repo)
          = Some c" and "status c = UNTRACKED \<or> status c = INTENT_TO_ADD" for c
    using that assms(3,4) pd by (auto simp: getDiffTextGit_def Let_def)
  have svn: "getDiffTextSvn h u root = Inr (Some expected)"
    if "getSvnStatus h (fsPath u) root = Some (js ''A'')
        \<or> getSvnStatus h (fsPath u) root = Some (js ''?'')"
    using that assms(3,4) pd by (auto simp: getDiffTextSvn_def Let_def)
  have split: "js_split LF expected =
                [js ''--- /dev/null'', js ''+++ b/'' @ asRelativePath h u,
                 js ''@@ -0,0 +1,'' @ numberToString (int (length ls)) @ js '' @@'']
                @ map (\<lambda>l. 0x2B # l) ls"
    if "LF \<notin> set (asRelativePath h u)"
    unfolding assms(5)
    apply (rule js_split_join)
    using that assms(1) LF_notin_numberToString
     apply (auto simp: js_def LF_def)
    done
  from git svn split show ?thesis by blast
qed


theorem new_file_diff_witness:
  "getDiffTextGit
     (quietHost\<lparr>readFile := (\<lambda>u. Inr (js ''a'' @ [LF] @ js ''b'' @ [LF]))\<rparr>)
     (quietRepo\<lparr>workingTreeChanges :=
        [\<lparr>uri = \<lparr>fsPath = js ''/w/new.txt''\<rparr>, status = UNTRACKED\<rparr>]\<rparr>)
     \<lparr>fsPath = js ''/w/new.txt''\<rparr>
   = Inr (Some (js ''--- /dev/null'' @ [LF] @ js ''+++ b/new.txt'' @ [LF]
                @ js ''@@ -0,0 +1,2 @@'' @ [LF] @ js ''+a'' @ [LF] @ js ''+b''))"
proof -
  define h where "h = quietHost\<lparr>readFile := (\<lambda>u. Inr (js ''a'' @ [LF] @ js ''b'' @ [LF]))\<rparr>"
  define repo where "repo = quietRepo\<lparr>workingTreeChanges :=
        [\<lparr>uri = \<lparr>fsPath = js ''/w/new.txt''\<rparr>, status = UNTRACKED\<rparr>]\<rparr>"
  define u where "u = \<lparr>fsPath = js ''/w/new.txt''\<rparr>"
  have h1: "\<forall>l \<in> set [js ''a'', js ''b'']. LF \<notin> set l"
    by (simp add: js_def LF_def)
  have h2: "js ''a'' @ [LF] @ js ''b'' @ [LF] = concat (map (\<lambda>l. l @ [LF]) [js ''a'', js ''b''])"
    by simp
  have h3: "\<not> isBinary (js ''a'' @ [LF] @ js ''b'' @ [LF])"
    by (simp add: isBinary_iff js_def LF_def NUL_def)
  have h4: "readFile h u = Inr (js ''a'' @ [LF] @ js ''b'' @ [LF])"
    by (simp add: h_def)
  have f: "find (\<lambda>c. fsPath (uri c) = fsPath u) (workingTreeChanges repo @ indexChanges repo)
      = Some \<lparr>uri = \<lparr>fsPath = js ''/w/new.txt''\<rparr>, status = UNTRACKED\<rparr>"
    by (simp add: repo_def u_def quietRepo_def)
  have n: "numberToString (int (length [js ''a'', js ''b''])) = js ''2''"
    by (simp add: numberToString_def digitsOf.simps [of 2] js_def)
  have r: "asRelativePath h u = js ''new.txt''"
    by (simp add: h_def u_def quietHost_def js_def)
  from new_file_diff [OF h1 h2 h3 h4 refl, of repo undefined] f
  have "getDiffTextGit h repo u = Inr (Some (js_join [LF]
             ([js ''--- /dev/null'', js ''+++ b/'' @ asRelativePath h u,
               js ''@@ -0,0 +1,'' @ numberToString (int (length [js ''a'', js ''b''])) @ js '' @@'']
              @ map (\<lambda>l. 0x2B # l) [js ''a'', js ''b''])))"
    by simp
  then show ?thesis
    unfolding n r unfolding h_def repo_def u_def by (simp add: js_def)
qed


text \<open>
  C9. A deleted file whose baseline content is not binary and has the \<open>k\<close> lines \<open>ls\<close>
  (each ended by a line feed, or all but a non-empty last one) gets the diff made of the
  header lines \<open>--- a/<relativePath>\<close> and \<open>+++ /dev/null\<close>, the hunk header
  \<open>@@ -1,k +0,0 @@\<close> and the \<open>k\<close> lines, each prefixed \<open>-\<close>: from git for the statuses
  \<open>DELETED\<close> and \<open>INDEX_DELETED\<close>, from svn for \<open>D\<close> and \<open>!\<close> when \<open>svn diff\<close> prints
  nothing and \<open>svn cat -r BASE\<close> gives the content.
\<close>

theorem deleted_file_diff:
  assumes "\<forall>l \<in> set ls. LF \<notin> set l"
    and "content = concat (map (\<lambda>l. l @ [LF]) ls)
         \<or> (ls \<noteq> [] \<and> last ls \<noteq> [] \<and> content = js_join [LF] ls)"
    and "\<not> isBinary content"
    and "expected =
           js_join [LF]
             ([js ''--- a/'' @ asRelativePath h u, js ''+++ /dev/null'',
               js ''@@ -1,'' @ numberToString (int (length ls)) @ js '' +0,0 @@'']
              @ map (\<lambda>l. 0x2D # l) ls)"
  shows "(\<forall>c. find (\<lambda>c. fsPath (uri c) = fsPath u) (workingTreeChanges repo @ indexChanges repo)
              = Some c \<and> (status c = DELETED \<or> status c = INDEX_DELETED)
              \<and> showHEAD repo (fsPath u) = Inr content
            \<longrightarrow> getDiffTextGit h repo u = Inr (Some expected))
       \<and> ((getSvnStatus h (fsPath u) root = Some (js ''D'')
             \<or> getSvnStatus h (fsPath u) root = Some (js ''!''))
            \<and> getSvnDiffOutput h (fsPath u) root = None
            \<and> getSvnBaseContent h (fsPath u) root = Some content
            \<longrightarrow> getDiffTextSvn h u root = Inr (Some expected))
       \<and> (LF \<notin> set (asRelativePath h u)
            \<longrightarrow> js_split LF expected =
                [js ''--- a/'' @ asRelativePath h u, js ''+++ /dev/null'',
                 js ''@@ -1,'' @ numberToString (int (length ls)) @ js '' +0,0 @@'']
                @ map (\<lambda>l. 0x2D # l) ls)"
proof -
  have pd: "buildPseudoDiff (asRelativePath h u) content Minus
              (js ''a/'' @ asRelativePath h u) (js ''/dev/null'') = expected"
    using assms(1,2) unfolding assms(4)
    by (auto simp: buildPseudoDiff_terminated buildPseudoDiff_unterminated
        pseudoDiffOf_def prefixUnit_def js_def)
  have git: "getDiffTextGit h repo u = Inr (Some expected)"
    if "find (\<lambda>c. fsPath (uri c) = fsPath u) (workingTreeChanges repo @ indexChanges repo)
          = Some c" and "status c = DELETED \<or> status c = INDEX_DELETED"
      and "showHEAD repo (fsPath u) = Inr content" for c
    using that assms(3) pd by (auto simp: getDiffTextGit_def Let_def)
  have svn: "getDiffTextSvn h u root = Inr (Some expected)"
    if st: "getSvnStatus h (fsPath u) root = Some (js ''D'')
        \<or> getSvnStatus h (fsPath u) root = Some (js ''!'')"
      and "getSvnDiffOutput h (fsPath u) root = None"
      and base: "getSvnBaseContent h (fsPath u) root = Some content"
  proof -
    from base have "content \<noteq> []"
      by (auto simp: getSvnBaseContent_def split: prod.splits if_splits)
    moreover from st have "getSvnStatus h (fsPath u) root \<noteq> Some (js ''A'')"
      and "getSvnStatus h (fsPath u) root \<noteq> Some (js ''?'')"
      by (auto simp: js_def)
    ultimately show ?thesis
      using that assms(3) pd by (auto simp: getDiffTextSvn_def Let_def truthy_def)
  qed
  have split: "js_split LF expected =
                [js ''--- a/'' @ asRelativePath h u, js ''+++ /dev/null'',
                 js ''@@ -1,'' @ numberToString (int (length ls)) @ js '' +0,0 @@'']
                @ map (\<lambda>l. 0x2D # l) ls"
    if "LF \<notin> set (asRelativePath h u)"
    unfolding assms(4)
    apply (rule js_split_join)
    using that assms(1) LF_notin_numberToString
     apply (auto simp: js_def LF_def)
    done
  from git svn split show ?thesis by blast
qed


theorem deleted_file_diff_witness:
  "getDiffTextSvn svnHost \<lparr>fsPath = js ''/w/old.txt''\<rparr> (js ''/w'')
   = Inr (Some (js ''--- a/old.txt'' @ [LF] @ js ''+++ /dev/null'' @ [LF]
                @ js ''@@ -1,2 +0,0 @@'' @ [LF] @ js ''-a'' @ [LF] @ js ''-b''))"
proof -
  define u where "u = \<lparr>fsPath = js ''/w/old.txt''\<rparr>"
  have h1: "\<forall>l \<in> set [js ''a'', js ''b'']. LF \<notin> set l"
    by (simp add: js_def LF_def)
  have h2: "js ''a'' @ [LF] @ js ''b'' = concat (map (\<lambda>l. l @ [LF]) [js ''a'', js ''b''])
      \<or> ([js ''a'', js ''b''] \<noteq> [] \<and> last [js ''a'', js ''b''] \<noteq> []
          \<and> js ''a'' @ [LF] @ js ''b'' = js_join [LF] [js ''a'', js ''b''])"
    by (simp add: js_def)
  have h3: "\<not> isBinary (js ''a'' @ [LF] @ js ''b'')"
    by (simp add: isBinary_iff js_def LF_def NUL_def)
  have st: "getSvnStatus svnHost (fsPath u) (js ''/w'') = Some (js ''D'')"
    by (simp add: getSvnStatus_def svnHost_def quietHost_def u_def js_startsWith_def
        js_trim_def isWhiteSpace_def js_def LF_def)
  have df: "getSvnDiffOutput svnHost (fsPath u) (js ''/w'') = None"
    by (simp add: getSvnDiffOutput_def svnHost_def quietHost_def u_def js_startsWith_def
        js_trim_def js_def)
  have ct: "getSvnBaseContent svnHost (fsPath u) (js ''/w'') = Some (js ''a'' @ [LF] @ js ''b'')"
    by (simp add: getSvnBaseContent_def svnHost_def quietHost_def u_def js_startsWith_def
        js_def)
  have n: "numberToString (int (length [js ''a'', js ''b''])) = js ''2''"
    by (simp add: numberToString_def digitsOf.simps [of 2] js_def)
  have r: "asRelativePath svnHost u = js ''old.txt''"
    by (simp add: svnHost_def u_def quietHost_def js_def)
  from deleted_file_diff [where h = svnHost and u = u and root = "js ''/w''", OF h1 h2 h3 refl]
    st df ct
  have "getDiffTextSvn svnHost u (js ''/w'') = Inr (Some (js_join [LF]
             ([js ''--- a/'' @ asRelativePath svnHost u, js ''+++ /dev/null'',
               js ''@@ -1,'' @ numberToString (int (length [js ''a'', js ''b''])) @ js '' +0,0 @@'']
              @ map (\<lambda>l. 0x2D # l) [js ''a'', js ''b''])))"
    by simp
  then show ?thesis
    unfolding n r unfolding u_def by (simp add: js_def)
qed

section \<open>Null bytes in resolved diffs\<close>

lemma set_js_join: "x \<in> set (js_join sep xs) \<Longrightarrow> x \<in> set sep \<or> (\<exists>l \<in> set xs. x \<in> set l)"
  by (induction sep xs rule: js_join.induct) auto

lemma set_js_split: "l \<in> set (js_split sep s) \<Longrightarrow> x \<in> set l \<Longrightarrow> x \<in> set s"
proof (induction s arbitrary: l)
  case Nil
  then show ?case by simp
next
  case (Cons c cs)
  show ?case
  proof (cases "c = sep")
    case True
    with Cons show ?thesis by auto
  next
    case False
    with Cons.prems have "l = c # hd (js_split sep cs) \<or> l \<in> set (tl (js_split sep cs))"
      by simp
    then show ?thesis
    proof
      assume "l = c # hd (js_split sep cs)"
      with Cons.prems(2) have "x = c \<or> x \<in> set (hd (js_split sep cs))" by auto
      moreover have "hd (js_split sep cs) \<in> set (js_split sep cs)"
        using js_split_nonempty by simp
      ultimately show ?thesis using Cons.IH by auto
    next
      assume "l \<in> set (tl (js_split sep cs))"
      then have "l \<in> set (js_split sep cs)"
        using js_split_nonempty [of sep cs] by (meson list.set_sel(2))
      with Cons.IH Cons.prems(2) show ?thesis by auto
    qed
  qed
qed

lemma buildPseudoDiff_no_NUL:
  assumes "NUL \<notin> set content" and "NUL \<notin> set fromH" and "NUL \<notin> set toH"
  shows "NUL \<notin> set (buildPseudoDiff rel content p fromH toH)"
proof
  define lines1 where
    "lines1 = (if js_split LF content \<noteq> [] \<and> last (js_split LF content) = []
               then butlast (js_split LF content) else js_split LF content)"
  define hunk where
    "hunk = (if p = Plus
             then js ''@@ -0,0 +1,'' @ numberToString (int (length lines1)) @ js '' @@''
             else js ''@@ -1,'' @ numberToString (int (length lines1)) @ js '' +0,0 @@'')"
  have eq: "buildPseudoDiff rel content p fromH toH =
      js_join [LF] ([js ''--- '' @ fromH, js ''+++ '' @ toH, hunk]
                    @ map (\<lambda>line. prefixUnit p # line) lines1)"
    by (simp add: buildPseudoDiff_def Let_def lines1_def hunk_def)
  have sub: "m \<in> set (js_split LF content)" if "m \<in> set lines1" for m
    using that by (auto simp: lines1_def dest: in_set_butlastD split: if_splits)
  have hunk_ok: "NUL \<notin> set hunk"
    using NUL_notin_numberToString by (simp add: hunk_def js_def NUL_def)
  have heads: "NUL \<notin> set (js ''--- '' @ fromH)" "NUL \<notin> set (js ''+++ '' @ toH)"
    using assms(2,3) by (simp_all add: js_def NUL_def)
  assume "NUL \<in> set (buildPseudoDiff rel content p fromH toH)"
  then have "NUL \<in> set [LF]
      \<or> (\<exists>l \<in> set ([js ''--- '' @ fromH, js ''+++ '' @ toH, hunk]
                      @ map (\<lambda>line. prefixUnit p # line) lines1). NUL \<in> set l)"
    unfolding eq by (rule set_js_join)
  moreover have "NUL \<notin> set [LF]" by (simp add: NUL_def LF_def)
  ultimately obtain l where l: "NUL \<in> set l"
    and mem: "l \<in> set ([js ''--- '' @ fromH, js ''+++ '' @ toH, hunk]
                       @ map (\<lambda>line. prefixUnit p # line) lines1)"
    by blast
  from mem l heads hunk_ok obtain m where "m \<in> set lines1" and "l = prefixUnit p # m"
    by auto
  with l have "NUL \<in> set m" by (cases p) (auto simp: prefixUnit_def NUL_def)
  with \<open>m \<in> set lines1\<close> assms(1) show False
    using set_js_split sub by blast
qed


lemma pseudo_plus_no_NUL:
  assumes "NUL \<notin> set rel" and "\<not> isBinary content"
  shows "NUL \<notin> set (buildPseudoDiff rel content Plus (js ''/dev/null'') (js ''b/'' @ rel))"
  using assms by (intro buildPseudoDiff_no_NUL) (simp_all add: isBinary_iff js_def NUL_def)

lemma pseudo_minus_no_NUL:
  assumes "NUL \<notin> set rel" and "\<not> isBinary content"
  shows "NUL \<notin> set (buildPseudoDiff rel content Minus (js ''a/'' @ rel) (js ''/dev/null''))"
  using assms by (intro buildPseudoDiff_no_NUL) (simp_all add: isBinary_iff js_def NUL_def)

lemma getDiffTextGit_no_NUL:
  assumes "NUL \<notin> set (asRelativePath h u)"
    and "getDiffTextGit h repo u = Inr (Some d)"
    and "diffWithHEAD repo (fsPath u) \<noteq> Inr d"
    and "diffIndexWithHEAD repo (fsPath u) \<noteq> Inr d"
  shows "NUL \<notin> set d"
  using assms pseudo_plus_no_NUL [of "asRelativePath h u"]
    pseudo_minus_no_NUL [of "asRelativePath h u"]
  unfolding getDiffTextGit_def Let_def
  by (auto split: if_splits sum.splits)

lemma getDiffTextSvn_no_NUL:
  assumes "NUL \<notin> set (asRelativePath h u)"
    and "getDiffTextSvn h u root = Inr (Some d)"
    and "getSvnDiffOutput h (fsPath u) root \<noteq> Some d"
  shows "NUL \<notin> set d"
  using assms pseudo_plus_no_NUL [of "asRelativePath h u"]
    pseudo_minus_no_NUL [of "asRelativePath h u"]
  unfolding getDiffTextSvn_def Let_def
  by (auto split: if_splits sum.splits option.splits)

lemma digitsOf_digit: "n < 10 \<Longrightarrow> digitsOf n = [of_nat (48 + n)]"
  by (simp add: digitsOf.simps [of n])

lemma newFileHost_diff:
  "getFileDiffText newFileHost \<lparr>fsPath = js ''/w/new.txt''\<rparr> = Inr (Some newFileDiff)"
  by (simp add: getFileDiffText_def newFileHost_def gitHost_def quietHost_def
      getDiffTextGit_def quietRepo_def isBinary_iff buildPseudoDiff_def numberToString_def
      digitsOf_digit prefixUnit_def newFileDiff_def js_def LF_def NUL_def)

text \<open>
  C5, as the code has it. A diff the resolver returns holds no null unit, provided the
  file's relative path holds none, unless the text is the one a backend's own diff
  operation returned (\<open>diffWithHEAD\<close> or \<open>diffIndexWithHEAD\<close> of git, the trimmed output of
  \<open>svn diff\<close>): \<open>isBinary\<close> guards the content from which a diff is synthesised, and
  no other text.
\<close>

theorem synthesised_diff_has_no_null:
  assumes "NUL \<notin> set (asRelativePath h u)"
    and "getFileDiffText h u = Inr (Some d)"
    and "\<forall>repo. (case gitAPI h of None \<Rightarrow> None | Some api \<Rightarrow> api u) = Some repo
           \<longrightarrow> diffWithHEAD repo (fsPath u) \<noteq> Inr d
               \<and> diffIndexWithHEAD repo (fsPath u) \<noteq> Inr d"
    and "\<forall>root. findScmRoot h (fsPath u) = Some (root, Svn)
           \<longrightarrow> getSvnDiffOutput h (fsPath u) root \<noteq> Some d"
  shows "\<not> isBinary d"
proof (cases "case gitAPI h of None \<Rightarrow> None | Some api \<Rightarrow> api u")
  case (Some repo)
  with assms(2) have "getDiffTextGit h repo u = Inr (Some d)"
    by (simp add: getFileDiffText_def)
  with assms(1,3) Some show ?thesis
    using getDiffTextGit_no_NUL by (simp add: isBinary_iff)
next
  case None
  with assms(2) obtain root where "findScmRoot h (fsPath u) = Some (root, Svn)"
    and "getDiffTextSvn h u root = Inr (Some d)"
    by (auto simp: getFileDiffText_def split: option.splits scm_type.splits)
  with assms(1,4) show ?thesis
    using getDiffTextSvn_no_NUL by (simp add: isBinary_iff)
qed


theorem synthesised_diff_has_no_null_witness:
  "getFileDiffText newFileHost \<lparr>fsPath = js ''/w/new.txt''\<rparr> = Inr (Some newFileDiff)
   \<and> \<not> isBinary newFileDiff"
proof -
  have a1: "NUL \<notin> set (asRelativePath newFileHost \<lparr>fsPath = js ''/w/new.txt''\<rparr>)"
    by (simp add: newFileHost_def gitHost_def quietHost_def js_def NUL_def)
  have a3: "\<forall>repo. (case gitAPI newFileHost of None \<Rightarrow> None
                      | Some api \<Rightarrow> api \<lparr>fsPath = js ''/w/new.txt''\<rparr>) = Some repo
           \<longrightarrow> diffWithHEAD repo (fsPath \<lparr>fsPath = js ''/w/new.txt''\<rparr>) \<noteq> Inr newFileDiff
               \<and> diffIndexWithHEAD repo (fsPath \<lparr>fsPath = js ''/w/new.txt''\<rparr>) \<noteq> Inr newFileDiff"
    by (auto simp: newFileHost_def gitHost_def quietHost_def quietRepo_def newFileDiff_def js_def)
  have a4: "\<forall>root. findScmRoot newFileHost (fsPath \<lparr>fsPath = js ''/w/new.txt''\<rparr>) = Some (root, Svn)
           \<longrightarrow> getSvnDiffOutput newFileHost (fsPath \<lparr>fsPath = js ''/w/new.txt''\<rparr>) root
               \<noteq> Some newFileDiff"
    by (simp add: getSvnDiffOutput_def newFileHost_def gitHost_def quietHost_def)
  from synthesised_diff_has_no_null [OF a1 newFileHost_diff a3 a4] newFileHost_diff
  show ?thesis by simp
qed


text \<open>
  C5 as stated fails on a modified file: the text of \<open>diffWithHEAD\<close> is returned as it
  is, null unit included.
\<close>

theorem backend_diff_keeps_null:
  "getFileDiffText (gitHost (quietRepo\<lparr>diffWithHEAD := (\<lambda>path. Inr binaryDiff)\<rparr>))
     \<lparr>fsPath = js ''/w/data.txt''\<rparr> = Inr (Some binaryDiff)
   \<and> isBinary binaryDiff"
  by (simp add: getFileDiffText_def gitHost_def quietHost_def getDiffTextGit_def quietRepo_def
      isBinary_iff binaryDiff_def js_trim_def isWhiteSpace_def js_def LF_def NUL_def)

section \<open>Language resolution\<close>

text \<open>
  What \<open>resolveLanguage\<close> returns: a configured language that is a key of the table is
  returned as it is; one that is neither a key nor a property name of \<open>Object.prototype\<close>
  gives the default; under \<open>auto\<close> the lower-cased UI language decides.
\<close>

lemma supported_not_auto: "k \<in> set (map fst PROMPT_TEMPLATES) \<Longrightarrow> k \<noteq> js ''auto''"
  by (auto simp: PROMPT_TEMPLATES_def js_def)

lemma resolveLanguage_supported:
  assumes "reviewLanguage h \<in> set (map fst PROMPT_TEMPLATES)"
  shows "resolveLanguage h = reviewLanguage h"
  using assms supported_not_auto [OF assms]
  by (simp add: resolveLanguage_def inPromptTemplates_def)

lemma resolveLanguage_unsupported:
  assumes "reviewLanguage h \<noteq> js ''auto''"
    and "reviewLanguage h \<notin> set (map fst PROMPT_TEMPLATES)"
    and "reviewLanguage h \<notin> set objectPrototypeKeys"
  shows "resolveLanguage h = DEFAULT_LANG"
  using assms by (simp add: resolveLanguage_def inPromptTemplates_def)

lemma short_not_inherited: "length k \<le> 2 \<Longrightarrow> k \<notin> set objectPrototypeKeys"
  by (auto simp: objectPrototypeKeys_def js_def)

lemma resolveLanguage_auto:
  assumes "reviewLanguage h = js ''auto''"
  shows "resolveLanguage h =
     (if js_startsWith (js_toLowerCase (envLanguage h)) (js ''zh'') then js ''zh-cn''
      else if take 2 (js_toLowerCase (envLanguage h)) \<in> set (map fst PROMPT_TEMPLATES)
      then take 2 (js_toLowerCase (envLanguage h))
      else DEFAULT_LANG)"
  using assms short_not_inherited [of "take 2 (js_toLowerCase (envLanguage h))"]
  by (simp add: resolveLanguage_def inPromptTemplates_def Let_def)

text \<open>
  C7. For every configured value other than \<open>auto\<close> the result is said to be that value
  if it is a supported code and the default otherwise. The configured value \<open>toString\<close> is
  not a supported code, and \<open>resolveLanguage\<close> returns it: the test
  \<open>configured in PROMPT_TEMPLATES\<close> succeeds through the prototype chain.
\<close>

theorem resolveLanguage_inherited_key:
  "resolveLanguage (quietHost\<lparr>reviewLanguage := js ''toString''\<rparr>) = js ''toString''
   \<and> js ''toString'' \<notin> set (map fst PROMPT_TEMPLATES)
   \<and> js ''toString'' \<noteq> DEFAULT_LANG"
  by (simp add: resolveLanguage_def inPromptTemplates_def objectPrototypeKeys_def
      PROMPT_TEMPLATES_def DEFAULT_LANG_def quietHost_def js_def)

section \<open>Custom prompts\<close>

lemma js_indexOf_split:
  "js_indexOf s p = Some i \<Longrightarrow> s = take i s @ p @ drop (i + length p) s"
proof (induction s arbitrary: i)
  case Nil
  then show ?case by (simp split: if_splits)
next
  case (Cons c cs)
  show ?case
  proof (cases "js_startsWith (c # cs) p")
    case True
    with Cons.prems have "i = 0" by simp
    moreover from True have "c # cs = p @ drop (length p) (c # cs)"
      unfolding js_startsWith_def by (metis append_take_drop_id)
    ultimately show ?thesis by simp
  next
    case False
    with Cons.prems obtain j where j: "js_indexOf cs p = Some j" and "i = Suc j"
      by auto
    with Cons.IH [OF j] show ?thesis by simp
  qed
qed

lemma getSubstitution_plain:
  "0x24 \<notin> set r \<Longrightarrow> getSubstitution m b a r = r"
  by (induction m b a r rule: getSubstitution.induct) auto

lemma js_replace_plain:
  assumes "js_indexOf s p = Some i" and "0x24 \<notin> set r"
  shows "js_replace s p r = take i s @ r @ drop (i + length p) s"
  using assms by (simp add: js_replace_def getSubstitution_plain)

text \<open>
  With a non-blank custom prompt for the resolved language: without the placeholder the
  output is the custom text, a blank line, the body and the footer; with the placeholder,
  and a body free of dollar signs, the first placeholder is replaced by the body.
\<close>

lemma buildPrompt_custom_appended:
  assumes "map_of PROMPT_TEMPLATES (resolveLanguage h) = Some t"
    and "custom = reviewPrompt h (resolveLanguage h)"
    and "js_trim custom \<noteq> []"
    and "\<not> js_includes custom (js ''{{diff}}'')"
  shows "buildPrompt h ds skipped =
     Inr (custom @ [LF, LF] @ promptBody (fileLabel t) ds
          @ (if skipped > 0 then [LF, LF] @ skipNotice t skipped else []))"
  using assms by (simp add: buildPrompt_def Let_def promptBody_def)

lemma buildPrompt_custom_placeholder:
  assumes "map_of PROMPT_TEMPLATES (resolveLanguage h) = Some t"
    and "custom = reviewPrompt h (resolveLanguage h)"
    and "js_trim custom \<noteq> []"
    and "js_indexOf custom (js ''{{diff}}'') = Some i"
    and "0x24 \<notin> set (promptBody (fileLabel t) ds)"
  shows "buildPrompt h ds skipped =
     Inr (take i custom @ promptBody (fileLabel t) ds @ drop (i + 8) custom
          @ (if skipped > 0 then [LF, LF] @ skipNotice t skipped else []))"
proof -
  have "js_includes custom (js ''{{diff}}'')"
    using assms(4) by (simp add: js_includes_def)
  moreover have "js_replace custom (js ''{{diff}}'') (promptBody (fileLabel t) ds)
      = take i custom @ promptBody (fileLabel t) ds @ drop (i + 8) custom"
  proof -
    have "length (js ''{{diff}}'') = 8" by (simp add: js_def)
    with js_replace_plain [OF assms(4,5)] show ?thesis by simp
  qed
  ultimately show ?thesis
    using assms(1,2,3) by (simp add: buildPrompt_def Let_def promptBody_def)
qed

lemma resolveLanguage_customHost: "resolveLanguage (customHost c) = js ''en''"
  by (simp add: resolveLanguage_def inPromptTemplates_def PROMPT_TEMPLATES_def customHost_def
      quietHost_def js_def)

lemma template_en_lookup: "map_of PROMPT_TEMPLATES (js ''en'') = Some template_en"
  by (simp add: PROMPT_TEMPLATES_def js_def)

lemma reviewPrompt_customHost: "reviewPrompt (customHost c) lang = c"
  by (simp add: customHost_def)

lemma fileLabel_en: "fileLabel template_en = js ''File''"
  by (simp add: template_en_def)

lemma buildPrompt_customHost:
  assumes "js_trim c \<noteq> []"
  shows "buildPrompt (customHost c) ds 0 =
     Inr (if js_includes c (js ''{{diff}}'')
          then js_replace c (js ''{{diff}}'') (promptBody (js ''File'') ds)
          else c @ [LF, LF] @ promptBody (js ''File'') ds)"
  using assms
  by (simp add: buildPrompt_def resolveLanguage_customHost template_en_lookup
      reviewPrompt_customHost promptBody_def fileLabel_en Let_def)

text \<open>
  C6. With the placeholder \<open>{{diff}}\<close> in the custom prompt the output is said to be the
  custom text with the placeholder replaced by the diff body. For the diff line
  \<open>+echo $$\<close> of a shell script the output holds \<open>+echo $\<close>: \<open>String.prototype.replace\<close>
  reads \<open>$$\<close> in its second argument as one dollar sign.
\<close>

theorem buildPrompt_dollar_pattern:
  "buildPrompt (customHost (js ''Review:'' @ [LF] @ js ''{{diff}}'')) [shellDiff] 0
     = Inr (js ''Review:'' @ [LF] @ js ''### File: a.sh'' @ [LF] @ js ''```diff'' @ [LF]
            @ js ''+echo $'' @ [LF] @ js ''```'')
   \<and> promptBody (js ''File'') [shellDiff]
     = js ''### File: a.sh'' @ [LF] @ js ''```diff'' @ [LF] @ js ''+echo $$'' @ [LF] @ js ''```''"
proof -
  have "js_trim (js ''Review:'' @ [LF] @ js ''{{diff}}'') \<noteq> []"
    by (simp add: js_trim_def isWhiteSpace_def js_def LF_def)
  from buildPrompt_customHost [OF this, of "[shellDiff]"] show ?thesis
    by (simp add: promptBody_def shellDiff_def js_includes_def js_startsWith_def
        js_replace_def js_def LF_def)
qed

section \<open>Backend selection\<close>

lemma findScmRootFrom_find:
  "findScmRootFrom h d =
     (case find (hasMarker h) (ancestorsFrom d) of
        None \<Rightarrow> None
      | Some r \<Rightarrow> Some (r, if existsJoin h r (js ''.git'') then Git else Svn))"
proof (induction h d rule: findScmRootFrom.induct)
  case (1 h currentDir)
  show ?case
  proof (cases "hasMarker h currentDir")
    case True
    then have "find (hasMarker h) (ancestorsFrom currentDir) = Some currentDir"
      by (subst ancestorsFrom.simps) (simp add: Let_def)
    moreover from True have "findScmRootFrom h currentDir
        = Some (currentDir, if existsJoin h currentDir (js ''.git'') then Git else Svn)"
      by (subst findScmRootFrom.simps) (auto simp: hasMarker_def)
    ultimately show ?thesis by simp
  next
    case False
    then have no: "\<not> existsJoin h currentDir (js ''.git'')"
      "\<not> existsJoin h currentDir (js ''.svn'')"
      by (simp_all add: hasMarker_def)
    show ?thesis
    proof (cases "js_dirname currentDir = currentDir")
      case True
      with False have "find (hasMarker h) (ancestorsFrom currentDir) = None"
        by (subst ancestorsFrom.simps) (simp add: Let_def)
      moreover from True no have "findScmRootFrom h currentDir = None"
        by (subst findScmRootFrom.simps) (simp add: Let_def)
      ultimately show ?thesis by simp
    next
      case nf: False
      with False have "find (hasMarker h) (ancestorsFrom currentDir)
          = find (hasMarker h) (ancestorsFrom (js_dirname currentDir))"
        by (subst ancestorsFrom.simps) (simp add: Let_def)
      moreover from nf no have "findScmRootFrom h currentDir
          = findScmRootFrom h (js_dirname currentDir)"
        by (subst findScmRootFrom.simps) (simp add: Let_def)
      moreover have "findScmRootFrom h (js_dirname currentDir) =
          (case find (hasMarker h) (ancestorsFrom (js_dirname currentDir)) of
             None \<Rightarrow> None
           | Some r \<Rightarrow> Some (r, if existsJoin h r (js ''.git'') then Git else Svn))"
        using nf no by (intro "1.IH" [OF _ _ refl]) auto
      ultimately show ?thesis by simp
    qed
  qed
qed

lemma ancestorsFrom_step:
  "js_dirname d \<noteq> d \<Longrightarrow> ancestorsFrom d = d # ancestorsFrom (js_dirname d)"
  by (subst ancestorsFrom.simps) (simp add: Let_def)

lemma ancestorsFrom_stop: "js_dirname d = d \<Longrightarrow> ancestorsFrom d = [d]"
  by (subst ancestorsFrom.simps) (simp add: Let_def)

lemma ancestorsFrom_walk:
  "ancestorsFrom d \<noteq> [] \<and> hd (ancestorsFrom d) = d
   \<and> js_dirname (last (ancestorsFrom d)) = last (ancestorsFrom d)
   \<and> (\<forall>i. Suc i < length (ancestorsFrom d)
          \<longrightarrow> ancestorsFrom d ! Suc i = js_dirname (ancestorsFrom d ! i))"
proof (induction d rule: ancestorsFrom.induct)
  case (1 currentDir)
  show ?case
  proof (cases "js_dirname currentDir = currentDir")
    case True
    then show ?thesis by (simp add: ancestorsFrom_stop)
  next
    case False
    from "1.IH" [OF refl False]
    have ih: "ancestorsFrom (js_dirname currentDir) \<noteq> []"
      "hd (ancestorsFrom (js_dirname currentDir)) = js_dirname currentDir"
      "js_dirname (last (ancestorsFrom (js_dirname currentDir)))
         = last (ancestorsFrom (js_dirname currentDir))"
      "\<And>i. Suc i < length (ancestorsFrom (js_dirname currentDir))
          \<Longrightarrow> ancestorsFrom (js_dirname currentDir) ! Suc i
              = js_dirname (ancestorsFrom (js_dirname currentDir) ! i)"
      by auto
    have step: "ancestorsFrom currentDir = currentDir # ancestorsFrom (js_dirname currentDir)"
      using False by (rule ancestorsFrom_step)
    have "ancestorsFrom currentDir ! Suc i = js_dirname (ancestorsFrom currentDir ! i)"
      if "Suc i < length (ancestorsFrom currentDir)" for i
    proof (cases i)
      case 0
      with ih(1,2) show ?thesis by (simp add: step hd_conv_nth)
    next
      case (Suc j)
      with that ih(4) [of j] show ?thesis by (simp add: step)
    qed
    with ih(1,3) show ?thesis by (simp add: step)
  qed
qed

lemma ancestorDirs_nested:
  "ancestorDirs (js ''/r/s/f.txt'') = [js ''/r/s'', js ''/r'', js ''/'']"
  "ancestorDirs (js ''/r/t/f.txt'') = [js ''/r/t'', js ''/r'', js ''/'']"
  by (simp_all add: ancestorDirs_def js_dirname_def js_def ancestorsFrom_step ancestorsFrom_stop)

lemma nestedHost_svn:
  "getDiffTextSvn nestedHost \<lparr>fsPath = p\<rparr> (js ''/r'') = Inr (Some svnDiffText)"
proof -
  have st: "getSvnStatus nestedHost p (js ''/r'') = Some (js ''M'')"
    by (simp add: getSvnStatus_def nestedHost_def quietHost_def js_startsWith_def
        js_trim_def isWhiteSpace_def js_def LF_def)
  have "js_trim (svnDiffText @ [LF]) = svnDiffText"
    by (simp add: js_trim_def isWhiteSpace_def svnDiffText_def js_def LF_def)
  then have df: "getSvnDiffOutput nestedHost p (js ''/r'') = Some svnDiffText"
    by (simp add: getSvnDiffOutput_def nestedHost_def quietHost_def js_startsWith_def)
      (simp add: svnDiffText_def js_def)
  show ?thesis
    using st df by (simp add: getDiffTextSvn_def Let_def) (simp add: js_def)
qed

lemma cleanSvnHost_absent:
  "getFileDiffText cleanSvnHost \<lparr>fsPath = js ''/r/t/f.txt''\<rparr> = Inr None
   \<and> findScmRoot cleanSvnHost (js ''/r/t/f.txt'') = Some (js ''/r'', Svn)"
proof -
  have root: "findScmRoot cleanSvnHost (js ''/r/t/f.txt'') = Some (js ''/r'', Svn)"
    by (simp add: findScmRoot_def findScmRootFrom_find
        ancestorDirs_nested [unfolded ancestorDirs_def] hasMarker_def)
      (simp add: cleanSvnHost_def js_def)
  have st: "getSvnStatus cleanSvnHost p (js ''/r'') = None" for p
    by (simp add: getSvnStatus_def cleanSvnHost_def js_trim_def js_def)
  have df: "getSvnDiffOutput cleanSvnHost p (js ''/r'') = None" for p
    by (simp add: getSvnDiffOutput_def cleanSvnHost_def js_trim_def)
  have "getDiffTextSvn cleanSvnHost \<lparr>fsPath = js ''/r/t/f.txt''\<rparr> (js ''/r'') = Inr None"
    by (simp add: getDiffTextSvn_def st df Let_def)
  with root show ?thesis
    by (simp add: getFileDiffText_def) (simp add: cleanSvnHost_def quietHost_def)
qed

text \<open>
  C4, as the code has it. For a path the git extension does not recognise, the resolver
  walks from the file's directory upward and stops at the first directory that holds a
  \<open>.git\<close> or a \<open>.svn\<close> entry. If that directory holds no \<open>.git\<close> entry, the result is
  the svn backend's for that directory (which may itself be absent); if it holds one, or
  if no directory up to the root holds a marker, the result is absent.
\<close>

theorem svn_dispatch:
  assumes "(case gitAPI h of None \<Rightarrow> None | Some api \<Rightarrow> api u) = None"
  shows "getFileDiffText h u =
     (case find (hasMarker h) (ancestorDirs (fsPath u)) of
        None \<Rightarrow> Inr None
      | Some root \<Rightarrow>
          if existsJoin h root (js ''.git'') then Inr None else getDiffTextSvn h u root)"
  using assms
  by (simp add: getFileDiffText_def findScmRoot_def findScmRootFrom_find ancestorDirs_def
      split: option.splits)

theorem svn_dispatch_witness:
  "getFileDiffText nestedHost \<lparr>fsPath = js ''/r/t/f.txt''\<rparr> = Inr (Some svnDiffText)"
proof -
  have "(case gitAPI nestedHost of None \<Rightarrow> None
         | Some api \<Rightarrow> api \<lparr>fsPath = js ''/r/t/f.txt''\<rparr>) = None"
    by (simp add: nestedHost_def quietHost_def)
  from svn_dispatch [OF this] show ?thesis
    by (simp add: ancestorDirs_nested hasMarker_def nestedHost_svn)
      (simp add: nestedHost_def js_def)
qed

text \<open>
  C4 as stated fails when a \<open>.git\<close> entry lies nearer to the file than the \<open>.svn\<close>
  entry: the walk stops there with the type git, and the result is absent although an
  ancestor holds \<open>.svn\<close> and the svn backend has a diff for the file. It also fails for
  an unchanged file of an svn working copy: the walk finds the \<open>.svn\<close> entry, and the
  result is absent because \<open>svn diff\<close> prints nothing.
\<close>

theorem nearer_git_marker_hides_svn:
  "getFileDiffText nestedHost \<lparr>fsPath = js ''/r/s/f.txt''\<rparr> = Inr None
   \<and> js ''/r'' \<in> set (ancestorDirs (js ''/r/s/f.txt''))
   \<and> existsJoin nestedHost (js ''/r'') (js ''.svn'')
   \<and> getDiffTextSvn nestedHost \<lparr>fsPath = js ''/r/s/f.txt''\<rparr> (js ''/r'')
       = Inr (Some svnDiffText)
   \<and> getFileDiffText cleanSvnHost \<lparr>fsPath = js ''/r/t/f.txt''\<rparr> = Inr None
   \<and> findScmRoot cleanSvnHost (js ''/r/t/f.txt'') = Some (js ''/r'', Svn)"
proof -
  have "findScmRoot nestedHost (js ''/r/s/f.txt'') = Some (js ''/r/s'', Git)"
    by (simp add: findScmRoot_def findScmRootFrom_find
        ancestorDirs_nested [unfolded ancestorDirs_def] hasMarker_def)
      (simp add: nestedHost_def js_def)
  then have "getFileDiffText nestedHost \<lparr>fsPath = js ''/r/s/f.txt''\<rparr> = Inr None"
    by (simp add: getFileDiffText_def) (simp add: nestedHost_def quietHost_def)
  moreover have "existsJoin nestedHost (js ''/r'') (js ''.svn'')"
    by (simp add: nestedHost_def js_def)
  ultimately show ?thesis
    using cleanSvnHost_absent by (simp add: ancestorDirs_nested nestedHost_svn)
qed

section \<open>The steps of the loop\<close>

text \<open>
  One lemma for each way the loop treats a target: a target that does not resolve is
  passed over, a diff within the limit is accepted, a diff over the limit ends the loop.
\<close>

lemma reviewLoop_unresolved:
  assumes "\<not> resolves h t"
  shows "reviewLoop h n (t # rest) s =
     reviewLoop h n rest
       (s\<lparr>notices := notices s @ [noticeOf h t],
          skippedCount := skippedCount s + (if fails h t then 1 else 0)\<rparr>)"
  using assms
  by (auto simp: reviewLoop.simps resolves_def fails_def noticeOf_def Let_def split: sum.splits)

lemma reviewLoop_skip_prefix:
  assumes "\<forall>t \<in> set pre. \<not> resolves h t"
  shows "reviewLoop h n (pre @ ts) s =
     reviewLoop h n ts
       (s\<lparr>notices := notices s @ map (noticeOf h) pre,
          skippedCount := skippedCount s + int (length (filter (fails h) pre))\<rparr>)"
  using assms
proof (induction pre arbitrary: s)
  case Nil
  then show ?case by simp
next
  case (Cons t pre)
  then show ?case by (simp add: reviewLoop_unresolved add.assoc)
qed

lemma reviewLoop_accept:
  assumes "getFileDiffText h (resourceUri t) = Inr (Some d)" and "d \<noteq> []"
    and "totalSize s + length d \<le> DIFF_SIZE_LIMIT"
  shows "reviewLoop h n (t # rest) s =
     reviewLoop h n rest
       (s\<lparr>totalSize := totalSize s + length d,
          diffs := diffs s @ [\<lparr>fileName = asRelativePath h (resourceUri t), diffText = d\<rparr>]\<rparr>)"
  using assms by (simp add: reviewLoop.simps truthy_def Let_def)

lemma reviewLoop_overflow_later:
  assumes "getFileDiffText h (resourceUri t) = Inr (Some d)" and "d \<noteq> []"
    and "totalSize s + length d > DIFF_SIZE_LIMIT" and "diffs s \<noteq> []"
  shows "reviewLoop h n (t # rest) s =
     AfterLoop (s\<lparr>skippedCount := skippedCount s + (int n - int (length (diffs s)))\<rparr>)"
  using assms by (simp add: reviewLoop.simps truthy_def Let_def)

lemma reviewLoop_overflow_first:
  assumes "getFileDiffText h (resourceUri t) = Inr (Some d)" and "d \<noteq> []"
    and "totalSize s + length d > DIFF_SIZE_LIMIT" and "diffs s = []"
  shows "reviewLoop h n (t # rest) s =
     (if showWarningMessage h
           (js ''Diff size exceeds the limit (50KB). Send only the first 50KB?''
            @ [LF] @ js ''File: '' @ asRelativePath h (resourceUri t))
           [js ''Send first 50KB'', js ''Cancel'']
         \<noteq> Some (js ''Send first 50KB'')
      then Return s
      else AfterLoop
             (s\<lparr>diffs := [\<lparr>fileName = asRelativePath h (resourceUri t),
                           diffText = take DIFF_SIZE_LIMIT d\<rparr>],
                skippedCount := skippedCount s + (int n - 1)\<rparr>))"
  using assms by (simp add: reviewLoop.simps truthy_def Let_def)



lemma buildPrompt_builtin:
  assumes "map_of PROMPT_TEMPLATES (resolveLanguage h) = Some t"
    and "js_trim (reviewPrompt h (resolveLanguage h)) = []"
  shows "buildPrompt h ds skipped =
     Inr (header t @ [LF, LF] @ promptBody (fileLabel t) ds
          @ (if skipped > 0 then [LF, LF] @ skipNotice t skipped else []))"
  using assms by (simp add: buildPrompt_def Let_def promptBody_def)

lemma buildPrompt_returns:
  assumes "map_of PROMPT_TEMPLATES (resolveLanguage h) = Some t"
  shows "\<exists>prompt. buildPrompt h ds skipped = Inr prompt"
  using assms by (simp add: buildPrompt_def Let_def)


lemma reviewDiff_after_loop:
  assumes "targetsOf rs rss = ts" and "length ts = n"
    and "reviewLoop h n ts initialState = AfterLoop s" and "diffs s \<noteq> []"
  shows "reviewDiff h rs rss =
     (notices s,
      case buildPrompt h (diffs s) (skippedCount s) of
        Inl e \<Rightarrow> Thrown e
      | Inr prompt \<Rightarrow> ChatOpened prompt)"
  using assms by (auto simp: reviewDiff_def Let_def split: sum.splits)

lemma reviewDiff_return:
  assumes "targetsOf rs rss = ts" and "length ts = n"
    and "reviewLoop h n ts initialState = Return s"
  shows "reviewDiff h rs rss = (notices s, NothingSent)"
  using assms by (auto simp: reviewDiff_def Let_def)

lemma js_trim_bigText: "js_trim (bigText n) = bigText n"
  by (simp add: js_trim_def bigText_def isWhiteSpace_def)

lemma bigText_empty: "bigText n = [] \<longleftrightarrow> n = 0"
  by (simp add: bigText_def)

lemma length_bigText: "length (bigText n) = n"
  by (simp add: bigText_def)

lemma bigHost_git:
  "getFileDiffText (bigHost a) u = getDiffTextGit (bigHost a) bigRepo u"
  by (simp add: getFileDiffText_def bigHost_def gitHost_def)

lemma bigRepo_status:
  "find (\<lambda>c. fsPath (uri c) = p) (workingTreeChanges bigRepo @ indexChanges bigRepo) = None"
  by (simp add: bigRepo_def quietRepo_def)

lemma bigHost_modified:
  "getFileDiffText (bigHost a) u =
     (case diffWithHEAD bigRepo (fsPath u) of
        Inl e \<Rightarrow> Inl e
      | Inr d \<Rightarrow> if d = [] \<or> js_trim d = [] then Inr None else Inr (Some d))"
  by (simp add: bigHost_git getDiffTextGit_def bigRepo_status Let_def)
    (simp add: bigRepo_def quietRepo_def split: sum.splits)

lemma bigHost_files:
  "getFileDiffText (bigHost a) (resourceUri (fileAt ''/w/a.ts'')) = Inr None"
  "getFileDiffText (bigHost a) (resourceUri (fileAt ''/w/b.ts'')) = Inr (Some (bigText 30000))"
  "getFileDiffText (bigHost a) (resourceUri (fileAt ''/w/c.ts'')) = Inr (Some (bigText 30000))"
  "getFileDiffText (bigHost a) (resourceUri (fileAt ''/w/huge.ts'')) = Inr (Some (bigText 60000))"
  "getFileDiffText (bigHost a) (resourceUri (fileAt ''/w/err.ts'')) = Inl HostFailure"
  by (simp_all add: bigHost_modified fileAt_def bigRepo_def quietRepo_def js_trim_bigText
      bigText_empty js_def)

lemma bigHost_names:
  "asRelativePath (bigHost a) (resourceUri (fileAt ''/w/a.ts'')) = js ''a.ts''"
  "asRelativePath (bigHost a) (resourceUri (fileAt ''/w/b.ts'')) = js ''b.ts''"
  "asRelativePath (bigHost a) (resourceUri (fileAt ''/w/c.ts'')) = js ''c.ts''"
  "asRelativePath (bigHost a) (resourceUri (fileAt ''/w/huge.ts'')) = js ''huge.ts''"
  "asRelativePath (bigHost a) (resourceUri (fileAt ''/w/err.ts'')) = js ''err.ts''"
  by (simp_all add: bigHost_def gitHost_def quietHost_def fileAt_def js_def)

lemma bigHost_language: "resolveLanguage (bigHost a) = js ''en''"
  by (simp add: resolveLanguage_def bigHost_def gitHost_def quietHost_def
      inPromptTemplates_def PROMPT_TEMPLATES_def js_toLowerCase_def lowerUnit_def
      js_startsWith_def js_def)

lemma bigHost_prompt:
  "buildPrompt (bigHost a) ds skipped =
     Inr (header template_en @ [LF, LF] @ promptBody (js ''File'') ds
          @ (if skipped > 0 then [LF, LF] @ skipNotice template_en skipped else []))"
proof -
  have "js_trim (reviewPrompt (bigHost a) (resolveLanguage (bigHost a))) = []"
    by (simp add: bigHost_def gitHost_def quietHost_def js_trim_def)
  from buildPrompt_builtin [OF _ this, of template_en ds skipped] show ?thesis
    by (simp add: bigHost_language template_en_lookup fileLabel_en)
qed


lemma skipNotice_en:
  "skipNotice template_en 1
     = js ''> Note: 1 file(s) were skipped because the diff size exceeded the limit.''"
  "skipNotice template_en 2
     = js ''> Note: 2 file(s) were skipped because the diff size exceeded the limit.''"
  by (simp_all add: template_en_def numberToString_def digitsOf_digit js_def)

lemma take_bigText: "take DIFF_SIZE_LIMIT (bigText 60000) = bigText 50000"
  by (simp add: bigText_def DIFF_SIZE_LIMIT_def)


section \<open>The size limit\<close>

text \<open>
  The first diff that resolves (every earlier target failed or had no diff, so nothing
  is accepted yet) is longer than the limit of 50,000 units. The handler shows the
  warning dialog with its two items. If the user picks \<open>Send first 50KB\<close>, the accepted
  diffs are exactly the first 50,000 units of this diff, \<open>skippedCount\<close> grows by
  \<open>targets.length - 1\<close>, no later target is looked at, and the handler goes on to
  \<open>buildPrompt\<close>: the chat panel is opened with the prompt if \<open>buildPrompt\<close> returns one,
  which it does whenever the resolved language has a template. On any other answer the
  handler returns and nothing is sent.
\<close>

lemma first_diff_over_limit:
  assumes "targetsOf rs rss = pre @ t # rest"
    and "\<forall>p \<in> set pre. \<not> resolves h p"
    and "getFileDiffText h (resourceUri t) = Inr (Some d)"
    and "length d > DIFF_SIZE_LIMIT"
    and "name = asRelativePath h (resourceUri t)"
    and "answer =
           showWarningMessage h
             (js ''Diff size exceeds the limit (50KB). Send only the first 50KB?''
              @ [LF] @ js ''File: '' @ name)
             [js ''Send first 50KB'', js ''Cancel'']"
    and "accepted = [\<lparr>fileName = name, diffText = take DIFF_SIZE_LIMIT d\<rparr>]"
    and "skipped = int (length (filter (fails h) pre)) + (int (length (pre @ t # rest)) - 1)"
  shows "(answer = Some (js ''Send first 50KB'') \<longrightarrow>
            length (take DIFF_SIZE_LIMIT d) = DIFF_SIZE_LIMIT
          \<and> reviewLoop h (length (pre @ t # rest)) (pre @ t # rest) initialState
              = AfterLoop \<lparr>diffs = accepted, totalSize = 0, skippedCount = skipped,
                           notices = map (noticeOf h) pre\<rparr>
          \<and> reviewDiff h rs rss =
              (map (noticeOf h) pre,
               case buildPrompt h accepted skipped of
                 Inl e \<Rightarrow> Thrown e
               | Inr prompt \<Rightarrow> ChatOpened prompt)
          \<and> (\<forall>tpl. map_of PROMPT_TEMPLATES (resolveLanguage h) = Some tpl
                \<longrightarrow> (\<exists>prompt. buildPrompt h accepted skipped = Inr prompt
                        \<and> reviewDiff h rs rss = (map (noticeOf h) pre, ChatOpened prompt))))
       \<and> (answer \<noteq> Some (js ''Send first 50KB'') \<longrightarrow>
            reviewDiff h rs rss = (map (noticeOf h) pre, NothingSent))"
proof -
  define n where "n = length (pre @ t # rest)"
  define s0 where
    "s0 = initialState\<lparr>notices := notices initialState @ map (noticeOf h) pre,
            skippedCount := skippedCount initialState + int (length (filter (fails h) pre))\<rparr>"
  have dne: "d \<noteq> []" using assms(4) by auto
  have s0: "diffs s0 = []" "totalSize s0 = 0"
    "skippedCount s0 = int (length (filter (fails h) pre))" "notices s0 = map (noticeOf h) pre"
    by (simp_all add: s0_def initialState_def)
  have walk: "reviewLoop h n (pre @ t # rest) initialState = reviewLoop h n (t # rest) s0"
    unfolding s0_def by (rule reviewLoop_skip_prefix [OF assms(2)])
  have over: "totalSize s0 + length d > DIFF_SIZE_LIMIT"
    using assms(4) s0 by simp
  have step: "reviewLoop h n (t # rest) s0 =
     (if answer \<noteq> Some (js ''Send first 50KB'') then Return s0
      else AfterLoop (s0\<lparr>diffs := accepted, skippedCount := skippedCount s0 + (int n - 1)\<rparr>))"
    unfolding assms(5,6,7) by (rule reviewLoop_overflow_first [OF assms(3) dne over s0(1)])
  have final: "s0\<lparr>diffs := accepted, skippedCount := skippedCount s0 + (int n - 1)\<rparr>
      = \<lparr>diffs = accepted, totalSize = 0, skippedCount = skipped,
         notices = map (noticeOf h) pre\<rparr>"
    by (simp add: s0_def initialState_def assms(8) n_def)
  have cancel: "reviewDiff h rs rss = (map (noticeOf h) pre, NothingSent)"
    if "answer \<noteq> Some (js ''Send first 50KB'')"
  proof -
    from that walk step have "reviewLoop h n (pre @ t # rest) initialState = Return s0"
      by simp
    from reviewDiff_return [OF assms(1) n_def [symmetric] this] s0(4) show ?thesis by simp
  qed
  have confirm_loop: "reviewLoop h n (pre @ t # rest) initialState
      = AfterLoop \<lparr>diffs = accepted, totalSize = 0, skippedCount = skipped,
                   notices = map (noticeOf h) pre\<rparr>"
    if "answer = Some (js ''Send first 50KB'')"
    using that walk step final by simp
  have confirm: "reviewDiff h rs rss =
              (map (noticeOf h) pre,
               case buildPrompt h accepted skipped of
                 Inl e \<Rightarrow> Thrown e
               | Inr prompt \<Rightarrow> ChatOpened prompt)"
    if "answer = Some (js ''Send first 50KB'')"
    using reviewDiff_after_loop [OF assms(1) n_def [symmetric] confirm_loop [OF that]]
    by (simp add: assms(7))
  have delivered: "\<exists>prompt. buildPrompt h accepted skipped = Inr prompt
        \<and> reviewDiff h rs rss = (map (noticeOf h) pre, ChatOpened prompt)"
    if "answer = Some (js ''Send first 50KB'')"
      and "map_of PROMPT_TEMPLATES (resolveLanguage h) = Some tpl" for tpl
  proof -
    from buildPrompt_returns [OF that(2)] obtain prompt
      where "buildPrompt h accepted skipped = Inr prompt" by blast
    with confirm [OF that(1)] show ?thesis by simp
  qed
  have exact: "length (take DIFF_SIZE_LIMIT d) = DIFF_SIZE_LIMIT"
    using assms(4) by simp
  from cancel confirm_loop confirm delivered exact show ?thesis
    unfolding n_def by blast
qed


lemma first_diff_over_limit_example:
  "reviewDiff (bigHost (Some (js ''Send first 50KB''))) (fileAt ''/w/huge.ts'')
       (Some [fileAt ''/w/huge.ts'', fileAt ''/w/b.ts''])
     = ([], ChatOpened
              (header template_en @ [LF, LF]
               @ promptBody (js ''File'')
                   [\<lparr>fileName = js ''huge.ts'', diffText = bigText 50000\<rparr>]
               @ [LF, LF]
               @ js ''> Note: 1 file(s) were skipped because the diff size exceeded the limit.''))
   \<and> length (bigText 50000) = 50000
   \<and> reviewDiff (bigHost None) (fileAt ''/w/huge.ts'') None = ([], NothingSent)"
proof -
  let ?send = "Some (js ''Send first 50KB'')"
  have t1: "targetsOf (fileAt ''/w/huge.ts'') (Some [fileAt ''/w/huge.ts'', fileAt ''/w/b.ts''])
      = [] @ fileAt ''/w/huge.ts'' # [fileAt ''/w/b.ts'']"
    by (simp add: targetsOf_def)
  have t2: "targetsOf (fileAt ''/w/huge.ts'') None = [] @ fileAt ''/w/huge.ts'' # []"
    by (simp add: targetsOf_def)
  have pre: "\<forall>p \<in> set []. \<not> resolves h p" for h by simp
  have big: "length (bigText 60000) > DIFF_SIZE_LIMIT"
    by (simp add: length_bigText DIFF_SIZE_LIMIT_def)
  have ans: "showWarningMessage (bigHost a) m items = a" for a m items
    by (simp add: bigHost_def)
  from first_diff_over_limit [OF t1 pre bigHost_files(4) big refl refl refl refl,
      of ?send]
  have "reviewDiff (bigHost ?send) (fileAt ''/w/huge.ts'')
       (Some [fileAt ''/w/huge.ts'', fileAt ''/w/b.ts''])
     = ([], case buildPrompt (bigHost ?send)
                   [\<lparr>fileName = js ''huge.ts'', diffText = bigText 50000\<rparr>] 1 of
              Inl e \<Rightarrow> Thrown e
            | Inr prompt \<Rightarrow> ChatOpened prompt)"
    by (simp add: ans bigHost_names take_bigText)
  then have confirm: "reviewDiff (bigHost ?send) (fileAt ''/w/huge.ts'')
       (Some [fileAt ''/w/huge.ts'', fileAt ''/w/b.ts''])
     = ([], ChatOpened
              (header template_en @ [LF, LF]
               @ promptBody (js ''File'')
                   [\<lparr>fileName = js ''huge.ts'', diffText = bigText 50000\<rparr>]
               @ [LF, LF]
               @ js ''> Note: 1 file(s) were skipped because the diff size exceeded the limit.''))"
    by (simp add: bigHost_prompt skipNotice_en)
  from first_diff_over_limit [OF t2 pre bigHost_files(4) big refl refl refl refl, of None]
  have cancel: "reviewDiff (bigHost None) (fileAt ''/w/huge.ts'') None = ([], NothingSent)"
    by (simp add: ans)
  from confirm cancel show ?thesis by (simp add: length_bigText)
qed

lemma inheritedLanguageHost_huge:
  "getFileDiffText inheritedLanguageHost (resourceUri (fileAt ''/w/huge.ts''))
     = Inr (Some (bigText 60000))"
  by (simp add: getFileDiffText_def inheritedLanguageHost_def bigHost_def gitHost_def
      getDiffTextGit_def bigRepo_status Let_def)
    (simp add: bigRepo_def quietRepo_def fileAt_def js_trim_bigText bigText_empty js_def)

lemma inheritedLanguageHost_name:
  "asRelativePath inheritedLanguageHost (resourceUri (fileAt ''/w/huge.ts'')) = js ''huge.ts''"
  by (simp add: inheritedLanguageHost_def bigHost_def gitHost_def quietHost_def fileAt_def
      js_def)

lemma inheritedLanguageHost_answer:
  "showWarningMessage inheritedLanguageHost m items = Some (js ''Send first 50KB'')"
  by (simp add: inheritedLanguageHost_def bigHost_def)

lemma inheritedLanguageHost_language:
  "resolveLanguage inheritedLanguageHost = js ''toString''"
  by (simp add: resolveLanguage_def inPromptTemplates_def objectPrototypeKeys_def
      inheritedLanguageHost_def js_def)

lemma inherited_key_has_no_template: "map_of PROMPT_TEMPLATES (js ''toString'') = None"
  by (simp add: PROMPT_TEMPLATES_def js_def)

lemma inheritedLanguageHost_prompt:
  "skipped > 0 \<Longrightarrow> buildPrompt inheritedLanguageHost ds skipped = Inl TypeError"
  by (simp add: buildPrompt_def inheritedLanguageHost_language inherited_key_has_no_template
      Let_def)

text \<open>
  C2. On confirm the handler is said to accept the first 50,000 units, add
  \<open>targets.length - 1\<close> to the skipped count, stop, and deliver the assembled prompt.
  With the configured language \<open>toString\<close>, the targets \<open>huge.ts\<close> (60,000 units) and
  \<open>b.ts\<close>, and the answer \<open>Send first 50KB\<close>, the loop does the first three, and
  nothing is delivered: \<open>resolveLanguage\<close> returns \<open>toString\<close>, the skipped count is 1,
  and the call of \<open>template.skipNotice\<close> in \<open>buildPrompt\<close> throws.
\<close>

theorem confirmed_truncation_not_delivered:
  "reviewLoop inheritedLanguageHost 2 [fileAt ''/w/huge.ts'', fileAt ''/w/b.ts'']
       initialState
     = AfterLoop \<lparr>diffs = [\<lparr>fileName = js ''huge.ts'', diffText = bigText 50000\<rparr>],
                  totalSize = 0, skippedCount = 1, notices = []\<rparr>
   \<and> reviewDiff inheritedLanguageHost (fileAt ''/w/huge.ts'')
       (Some [fileAt ''/w/huge.ts'', fileAt ''/w/b.ts''])
     = ([], Thrown TypeError)"
proof -
  have t1: "targetsOf (fileAt ''/w/huge.ts'') (Some [fileAt ''/w/huge.ts'', fileAt ''/w/b.ts''])
      = [] @ fileAt ''/w/huge.ts'' # [fileAt ''/w/b.ts'']"
    by (simp add: targetsOf_def)
  have pre: "\<forall>p \<in> set []. \<not> resolves inheritedLanguageHost p" by simp
  have big: "length (bigText 60000) > DIFF_SIZE_LIMIT"
    by (simp add: length_bigText DIFF_SIZE_LIMIT_def)
  note run = first_diff_over_limit
    [OF t1 pre inheritedLanguageHost_huge big refl refl refl refl]
  from run have loop:
    "reviewLoop inheritedLanguageHost 2 [fileAt ''/w/huge.ts'', fileAt ''/w/b.ts'']
       initialState
     = AfterLoop \<lparr>diffs = [\<lparr>fileName = js ''huge.ts'', diffText = bigText 50000\<rparr>],
                  totalSize = 0, skippedCount = 1, notices = []\<rparr>"
    by (simp add: inheritedLanguageHost_answer inheritedLanguageHost_name take_bigText
        numeral_2_eq_2)
  from run have "reviewDiff inheritedLanguageHost (fileAt ''/w/huge.ts'')
       (Some [fileAt ''/w/huge.ts'', fileAt ''/w/b.ts''])
     = ([], case buildPrompt inheritedLanguageHost
                   [\<lparr>fileName = js ''huge.ts'', diffText = bigText 50000\<rparr>] 1 of
              Inl e \<Rightarrow> Thrown e
            | Inr prompt \<Rightarrow> ChatOpened prompt)"
    by (simp add: inheritedLanguageHost_answer inheritedLanguageHost_name take_bigText)
  then have "reviewDiff inheritedLanguageHost (fileAt ''/w/huge.ts'')
       (Some [fileAt ''/w/huge.ts'', fileAt ''/w/b.ts''])
     = ([], Thrown TypeError)"
    by (simp add: inheritedLanguageHost_prompt)
  with loop show ?thesis by simp
qed

text \<open>
  C3. With at least one diff accepted, a diff that would bring the total over the limit
  ends the loop: \<open>skippedCount\<close> grows by \<open>targets.length - diffs.length\<close>, the accepted
  diffs stay as they are, and no later target is looked at. For two targets whose diffs
  are 30,000 units each the loop ends with the first diff accepted and
  \<open>skippedCount = 1\<close>, and the prompt is assembled from these.
\<close>

theorem later_diff_over_limit:
  "(getFileDiffText h (resourceUri t) = Inr (Some d) \<and> d \<noteq> []
      \<and> totalSize s + length d > DIFF_SIZE_LIMIT \<and> diffs s \<noteq> []
    \<longrightarrow> reviewLoop h n (t # rest) s =
          AfterLoop (s\<lparr>skippedCount := skippedCount s + (int n - int (length (diffs s)))\<rparr>))
   \<and> (getFileDiffText h (resourceUri t1) = Inr (Some d1) \<and> length d1 = 30000
      \<and> getFileDiffText h (resourceUri t2) = Inr (Some d2) \<and> length d2 = 30000
    \<longrightarrow> reviewLoop h 2 [t1, t2] initialState =
          AfterLoop \<lparr>diffs = [\<lparr>fileName = asRelativePath h (resourceUri t1), diffText = d1\<rparr>],
                     totalSize = 30000, skippedCount = 1, notices = []\<rparr>
        \<and> reviewDiff h t1 (Some [t1, t2]) =
          ([], case buildPrompt h
                      [\<lparr>fileName = asRelativePath h (resourceUri t1), diffText = d1\<rparr>] 1 of
                 Inl e \<Rightarrow> Thrown e
               | Inr prompt \<Rightarrow> ChatOpened prompt))"
proof (intro conjI impI)
  assume "getFileDiffText h (resourceUri t) = Inr (Some d) \<and> d \<noteq> []
      \<and> totalSize s + length d > DIFF_SIZE_LIMIT \<and> diffs s \<noteq> []"
  then show "reviewLoop h n (t # rest) s =
      AfterLoop (s\<lparr>skippedCount := skippedCount s + (int n - int (length (diffs s)))\<rparr>)"
    by (intro reviewLoop_overflow_later) auto
next
  assume a: "getFileDiffText h (resourceUri t1) = Inr (Some d1) \<and> length d1 = 30000
      \<and> getFileDiffText h (resourceUri t2) = Inr (Some d2) \<and> length d2 = 30000"
  then have ne: "d1 \<noteq> []" "d2 \<noteq> []" by auto
  have first: "reviewLoop h 2 [t1, t2] initialState =
      reviewLoop h 2 [t2]
        \<lparr>diffs = [\<lparr>fileName = asRelativePath h (resourceUri t1), diffText = d1\<rparr>],
           totalSize = 30000, skippedCount = 0, notices = []\<rparr>"
    using a ne(1)
    by (subst reviewLoop_accept [where d = d1])
      (simp_all add: initialState_def DIFF_SIZE_LIMIT_def)
  have second: "reviewLoop h 2 [t2]
        \<lparr>diffs = [\<lparr>fileName = asRelativePath h (resourceUri t1), diffText = d1\<rparr>],
           totalSize = 30000, skippedCount = 0, notices = []\<rparr> =
      AfterLoop \<lparr>diffs = [\<lparr>fileName = asRelativePath h (resourceUri t1), diffText = d1\<rparr>],
                 totalSize = 30000, skippedCount = 1, notices = []\<rparr>"
    using a ne(2)
    by (subst reviewLoop_overflow_later [where d = d2])
      (simp_all add: DIFF_SIZE_LIMIT_def)
  from first second show loop: "reviewLoop h 2 [t1, t2] initialState =
      AfterLoop \<lparr>diffs = [\<lparr>fileName = asRelativePath h (resourceUri t1), diffText = d1\<rparr>],
                 totalSize = 30000, skippedCount = 1, notices = []\<rparr>"
    by simp
  show "reviewDiff h t1 (Some [t1, t2]) =
          ([], case buildPrompt h
                      [\<lparr>fileName = asRelativePath h (resourceUri t1), diffText = d1\<rparr>] 1 of
                 Inl e \<Rightarrow> Thrown e
               | Inr prompt \<Rightarrow> ChatOpened prompt)"
    using reviewDiff_after_loop [of t1 "Some [t1, t2]" "[t1, t2]" 2, OF _ _ loop]
    by (simp add: targetsOf_def)
qed


theorem later_diff_over_limit_witness:
  "reviewLoop (bigHost None) 3 [fileAt ''/w/c.ts'']
       \<lparr>diffs = [\<lparr>fileName = js ''b.ts'', diffText = bigText 30000\<rparr>],
          totalSize = 30000, skippedCount = 0, notices = []\<rparr>
     = AfterLoop \<lparr>diffs = [\<lparr>fileName = js ''b.ts'', diffText = bigText 30000\<rparr>],
                  totalSize = 30000, skippedCount = 2, notices = []\<rparr>
   \<and> reviewLoop (bigHost None) 2 [fileAt ''/w/b.ts'', fileAt ''/w/c.ts''] initialState
     = AfterLoop \<lparr>diffs = [\<lparr>fileName = js ''b.ts'', diffText = bigText 30000\<rparr>],
                  totalSize = 30000, skippedCount = 1, notices = []\<rparr>"
proof -
  note inst = later_diff_over_limit
    [of "bigHost None" "fileAt ''/w/c.ts''" "bigText 30000"
        "\<lparr>diffs = [\<lparr>fileName = js ''b.ts'', diffText = bigText 30000\<rparr>],
          totalSize = 30000, skippedCount = 0, notices = []\<rparr>"
        3 "[]" "fileAt ''/w/b.ts''" "bigText 30000" "fileAt ''/w/c.ts''" "bigText 30000"]
  from inst [THEN conjunct1] have one:
    "reviewLoop (bigHost None) 3 [fileAt ''/w/c.ts'']
       \<lparr>diffs = [\<lparr>fileName = js ''b.ts'', diffText = bigText 30000\<rparr>],
          totalSize = 30000, skippedCount = 0, notices = []\<rparr>
     = AfterLoop \<lparr>diffs = [\<lparr>fileName = js ''b.ts'', diffText = bigText 30000\<rparr>],
                  totalSize = 30000, skippedCount = 2, notices = []\<rparr>"
    by (simp add: bigHost_files bigText_empty length_bigText DIFF_SIZE_LIMIT_def)
  from inst [THEN conjunct2] have two:
    "reviewLoop (bigHost None) 2 [fileAt ''/w/b.ts'', fileAt ''/w/c.ts''] initialState
     = AfterLoop \<lparr>diffs = [\<lparr>fileName = js ''b.ts'', diffText = bigText 30000\<rparr>],
                  totalSize = 30000, skippedCount = 1, notices = []\<rparr>"
    by (simp add: bigHost_files bigHost_names length_bigText)
  from one two show ?thesis by simp
qed




section \<open>Files without a diff and the skipped count\<close>

text \<open>
  C1. A selected file whose resolution is absent is said to add nothing to the skipped
  count of the skip notice. In a run over \<open>a.ts\<close> (no diff), \<open>b.ts\<close> and \<open>c.ts\<close> (30,000
  units each) the loop leaves \<open>skippedCount\<close> alone at \<open>a.ts\<close>, accepts \<open>b.ts\<close>, and at
  \<open>c.ts\<close> adds \<open>targets.length - diffs.length = 2\<close>: the notice reports two skipped
  files. The same run without \<open>a.ts\<close> reports one.
\<close>

theorem absent_file_counted_as_skipped:
  "reviewLoop (bigHost None) 3 [fileAt ''/w/a.ts'', fileAt ''/w/b.ts'', fileAt ''/w/c.ts'']
       initialState
     = AfterLoop \<lparr>diffs = [\<lparr>fileName = js ''b.ts'', diffText = bigText 30000\<rparr>],
                  totalSize = 30000, skippedCount = 2,
                  notices = [js ''No diff found: a.ts'']\<rparr>
   \<and> reviewLoop (bigHost None) 2 [fileAt ''/w/b.ts'', fileAt ''/w/c.ts''] initialState
     = AfterLoop \<lparr>diffs = [\<lparr>fileName = js ''b.ts'', diffText = bigText 30000\<rparr>],
                  totalSize = 30000, skippedCount = 1, notices = []\<rparr>
   \<and> reviewDiff (bigHost None) (fileAt ''/w/a.ts'')
       (Some [fileAt ''/w/a.ts'', fileAt ''/w/b.ts'', fileAt ''/w/c.ts''])
     = ([js ''No diff found: a.ts''],
        ChatOpened
          (header template_en @ [LF, LF]
           @ promptBody (js ''File'') [\<lparr>fileName = js ''b.ts'', diffText = bigText 30000\<rparr>]
           @ [LF, LF]
           @ js ''> Note: 2 file(s) were skipped because the diff size exceeded the limit.''))"
proof -
  let ?B = "\<lparr>fileName = js ''b.ts'', diffText = bigText 30000\<rparr>"
  have a: "\<not> resolves (bigHost None) (fileAt ''/w/a.ts'')"
    and fa: "\<not> fails (bigHost None) (fileAt ''/w/a.ts'')"
    by (simp_all add: resolves_def fails_def bigHost_files truthy_def)
  have tail: "reviewLoop (bigHost None) n [fileAt ''/w/b.ts'', fileAt ''/w/c.ts'']
        \<lparr>diffs = [], totalSize = 0, skippedCount = 0, notices = ms\<rparr>
      = AfterLoop \<lparr>diffs = [?B], totalSize = 30000, skippedCount = int n - 1, notices = ms\<rparr>"
    for n ms
    by (subst reviewLoop_accept [where d = "bigText 30000"],
        simp_all add: bigHost_files bigHost_names bigText_empty length_bigText
          DIFF_SIZE_LIMIT_def,
        subst reviewLoop_overflow_later [where d = "bigText 30000"],
        simp_all add: bigHost_files bigText_empty length_bigText DIFF_SIZE_LIMIT_def)
  have three: "reviewLoop (bigHost None) 3
        [fileAt ''/w/a.ts'', fileAt ''/w/b.ts'', fileAt ''/w/c.ts''] initialState
      = AfterLoop \<lparr>diffs = [?B], totalSize = 30000, skippedCount = 2,
                   notices = [js ''No diff found: a.ts'']\<rparr>"
    by (subst reviewLoop_unresolved [OF a])
      (simp add: fa noticeOf_def bigHost_names initialState_def tail js_def)
  have two: "reviewLoop (bigHost None) 2 [fileAt ''/w/b.ts'', fileAt ''/w/c.ts''] initialState
      = AfterLoop \<lparr>diffs = [?B], totalSize = 30000, skippedCount = 1, notices = []\<rparr>"
    by (simp add: initialState_def tail)
  from reviewDiff_after_loop [OF _ _ three,
      of "fileAt ''/w/a.ts''" "Some [fileAt ''/w/a.ts'', fileAt ''/w/b.ts'', fileAt ''/w/c.ts'']"]
  have "reviewDiff (bigHost None) (fileAt ''/w/a.ts'')
       (Some [fileAt ''/w/a.ts'', fileAt ''/w/b.ts'', fileAt ''/w/c.ts''])
     = ([js ''No diff found: a.ts''],
        ChatOpened
          (header template_en @ [LF, LF]
           @ promptBody (js ''File'') [?B]
           @ [LF, LF]
           @ js ''> Note: 2 file(s) were skipped because the diff size exceeded the limit.''))"
    by (simp add: targetsOf_def bigHost_prompt skipNotice_en)
  with three two show ?thesis by simp
qed

end
